theory Spec2Isabelle
  imports Complex_Main
begin

section \<open>Data model (types.ts)\<close>

text \<open>
  JavaScript numbers that carry coordinates, angles and noise values are modelled as
  \<^typ>\<open>real\<close>; identities, hit points and counters, which the program only ever
  produces as small integers, are modelled as \<^typ>\<open>int\<close>.
\<close>

datatype GiftType = box | cane | ornament | stocking | gingerbread | star

type_synonym Vector3Tuple = "real \<times> real \<times> real"

record Gift =
  gid :: int
  gposition :: Vector3Tuple
  gcolor :: string
  collected :: bool
  gtype :: GiftType
  grotation :: "Vector3Tuple option"

record Snowman =
  sid :: int
  sposition :: Vector3Tuple
  srotation :: real
  hp :: int
  isDead :: bool

record GameState =
  started :: bool
  gifts :: "Gift list"
  snowmen :: "Snowman list"
  foundCount :: int
  gameOver :: bool

section \<open>Game session state machine (App.tsx)\<close>

text \<open>The state held by \<open>useState\<close> before the generators have run.\<close>

definition initialState :: GameState where
  "initialState =
     \<lparr>started = False, gifts = [], snowmen = [], foundCount = 0, gameOver = False\<rparr>"

text \<open>The state after the initialising effect has stored the generated collections.\<close>

definition initGame :: "Gift list \<Rightarrow> Snowman list \<Rightarrow> GameState" where
  "initGame gs sms = initialState\<lparr>gifts := gs, snowmen := sms\<rparr>"

text \<open>
  \<open>handleCollect\<close>: the updater passed to \<open>setGameState\<close>. The guard is
  \<open>gift && gift.collected\<close>: it returns the previous state only when the gift is found
  and already collected.
\<close>

definition handleCollect :: "int \<Rightarrow> GameState \<Rightarrow> GameState" where
  "handleCollect i prev =
     (let gift = find (\<lambda>g. gid g = i) (gifts prev) in
      if (case gift of None \<Rightarrow> False | Some g \<Rightarrow> collected g) then prev
      else
        let newGifts = map (\<lambda>g. if gid g = i then g\<lparr>collected := True\<rparr> else g) (gifts prev);
            newCount = foundCount prev + 1;
            totalGoals = 30
        in prev\<lparr>gifts := newGifts, foundCount := newCount, gameOver := (newCount \<ge> totalGoals)\<rparr>)"

text \<open>
  \<open>handleSnowmanHit\<close>: the guard is \<open>!sm || sm.isDead\<close>. The reward gift is pushed
  onto a copy of the gift list when the new hit points are \<open>\<le> 0\<close>.
\<close>

definition rewardGift :: "int \<Rightarrow> Snowman \<Rightarrow> Gift" where
  "rewardGift i sm =
     (case sposition sm of (px, py, pz) \<Rightarrow>
        \<lparr>gid = 1000 + i, gposition = (px, py + 1.0, pz), gcolor = ''#ff00ff'',
         collected = False, gtype = gingerbread, grotation = Some (0, 0, 0)\<rparr>)"

definition handleSnowmanHit :: "int \<Rightarrow> GameState \<Rightarrow> GameState" where
  "handleSnowmanHit i prev =
     (case find (\<lambda>s. sid s = i) (snowmen prev) of
        None \<Rightarrow> prev
      | Some sm \<Rightarrow>
          if isDead sm then prev
          else
            let newHp = hp sm - 1;
                isDead' = (newHp \<le> 0);
                newGifts = (if isDead' then gifts prev @ [rewardGift i sm] else gifts prev);
                newSnowmen = map (\<lambda>s. if sid s = i then s\<lparr>hp := newHp, isDead := isDead'\<rparr> else s)
                               (snowmen prev)
            in prev\<lparr>snowmen := newSnowmen, gifts := newGifts\<rparr>)"

definition startGame :: "GameState \<Rightarrow> GameState" where
  "startGame prev = prev\<lparr>started := True\<rparr>"

text \<open>User interaction events and runs of the session.\<close>

datatype Event = Collect int | Hit int | Start

fun step :: "GameState \<Rightarrow> Event \<Rightarrow> GameState" where
  "step s (Collect i) = handleCollect i s"
| "step s (Hit i) = handleSnowmanHit i s"
| "step s Start = startGame s"

definition run :: "GameState \<Rightarrow> Event list \<Rightarrow> GameState" where
  "run s evs = foldl step s evs"

text \<open>The number of gifts whose collected flag is set.\<close>

definition collectedCount :: "GameState \<Rightarrow> int" where
  "collectedCount s = int (length (filter collected (gifts s)))"

section \<open>Terrain height function (App.tsx)\<close>

definition VOXEL_SIZE :: real where
  "VOXEL_SIZE = 0.25"

definition getTerrainVoxelY :: "real \<Rightarrow> real \<Rightarrow> int" where
  "getTerrainVoxelY logicalX logicalZ =
     (let distToPond = sqrt ((logicalX - (-35))\<^sup>2 + (logicalZ - 35)\<^sup>2) in
      if distToPond < 16 then -2
      else
        let distToCenter = sqrt (logicalX\<^sup>2 + logicalZ\<^sup>2) in
        if distToCenter < 5 then 0
        else
          let noise = sin (logicalX * 0.05) * cos (logicalZ * 0.05) * 6
                      + sin (logicalX * 0.1 + logicalZ * 0.2) * 2
          in \<lfloor>noise\<rfloor>)"

text \<open>
  The height policy as the specification words it: Euclidean distances to the pond
  centre and to the origin, first match wins.
\<close>

definition euclid :: "real \<times> real \<Rightarrow> real \<times> real \<Rightarrow> real" where
  "euclid p q = sqrt ((fst p - fst q)\<^sup>2 + (snd p - snd q)\<^sup>2)"

definition terrainHeight_spec :: "real \<Rightarrow> real \<Rightarrow> int" where
  "terrainHeight_spec x z =
     (if euclid (x, z) (-35, 35) < 16 then -2
      else if euclid (x, z) (0, 0) < 5 then 0
      else \<lfloor>sin (x * 0.05) * cos (z * 0.05) * 6 + sin (x * 0.1 + z * 0.2) * 2\<rfloor>)"

section \<open>The random source\<close>

text \<open>
  \<open>Math.random()\<close> returns a number in the half-open interval from 0 to 1. A run of a
  generator is determined by the sequence of values the calls return, in call order;
  the generators thread the number of calls made so far.
\<close>

typedef rand01 = "{r::real. 0 \<le> r \<and> r < 1}"
  by (rule exI[of _ 0]) simp

type_synonym RandomSource = "nat \<Rightarrow> rand01"

definition rv :: "RandomSource \<Rightarrow> nat \<Rightarrow> real" where
  "rv rnd n = Rep_rand01 (rnd n)"

definition constRandom :: "real \<Rightarrow> RandomSource" where
  "constRandom r = (\<lambda>_. Abs_rand01 r)"

section \<open>Collectible placement (App.tsx)\<close>

definition colors :: "string list" where
  "colors = [''#ff0000'', ''#00ff00'', ''#3333ff'', ''#ffd700'', ''#ff00ff'', ''#00ffff'',
             ''#ff6b00'']"

text \<open>
  The helpers receive the value their \<open>Math.random()\<close> call returned; since it lies
  in the unit interval, the computed index is within the array.
\<close>

definition getRandomColor :: "rand01 \<Rightarrow> string" where
  "getRandomColor r = colors ! nat \<lfloor>Rep_rand01 r * real (length colors)\<rfloor>"

definition types :: "GiftType list" where
  "types = [box, box, cane, ornament, ornament, stocking, gingerbread, star]"

definition getRandomType :: "rand01 \<Rightarrow> GiftType" where
  "getRandomType r = types ! nat \<lfloor>Rep_rand01 r * real (length types)\<rfloor>"

text \<open>
  The mutable variables of \<open>generateGifts\<close>: the list being built, \<open>idCounter\<close>, and
  the number of \<open>Math.random()\<close> calls made so far.
\<close>

record GiftGen =
  out :: "Gift list"
  idCounter :: int
  calls :: nat

text \<open>
  \<open>addGift\<close>: the default argument \<open>getRandomType()\<close> is evaluated first when no type
  is passed; then the object literal draws the colour and the three rotation components.
\<close>

definition addGift :: "RandomSource \<Rightarrow> real \<Rightarrow> real \<Rightarrow> real \<Rightarrow> GiftType option \<Rightarrow> GiftGen \<Rightarrow> GiftGen" where
  "addGift rnd x y z ty st =
     (let (t, n) = (case ty of Some t \<Rightarrow> (t, calls st)
                            | None \<Rightarrow> (getRandomType (rnd (calls st)), calls st + 1));
          g = \<lparr>gid = idCounter st, gposition = (x, y, z), gcolor = getRandomColor (rnd n),
               collected = False, gtype = t,
               grotation = Some (rv rnd (n + 1) * 0.5, rv rnd (n + 2) * pi * 2, rv rnd (n + 3) * 0.5)\<rparr>
      in st\<lparr>out := out st @ [g], idCounter := idCounter st + 1, calls := n + 4\<rparr>)"

definition treeCount :: nat where "treeCount = 12"
definition maxRadius :: real where "maxRadius = 32"
definition treeHeight :: real where "treeHeight = 100"

definition radiusAtHeight :: "real \<Rightarrow> real" where
  "radiusAtHeight heightPercent =
     (let yVoxel = heightPercent * treeHeight in
      maxRadius * (1 - heightPercent) + (sin (yVoxel * 0.5) * 1.5))"

definition treeStep :: "RandomSource \<Rightarrow> GiftGen \<Rightarrow> nat \<Rightarrow> GiftGen" where
  "treeStep rnd st i =
     (let heightPercent = 0.15 + (rv rnd (calls st) * 0.7);
          yVoxel = heightPercent * treeHeight;
          angle = rv rnd (calls st + 1) * pi * 2;
          r = radiusAtHeight heightPercent + 1.5;
          xVoxel = cos angle * r;
          zVoxel = sin angle * r
      in addGift rnd (xVoxel * VOXEL_SIZE) (yVoxel * VOXEL_SIZE) (zVoxel * VOXEL_SIZE)
           (Some (if i mod 2 = 0 then ornament else star))
           (st\<lparr>calls := calls st + 2\<rparr>))"

definition placeOnTree :: "RandomSource \<Rightarrow> GiftGen \<Rightarrow> GiftGen" where
  "placeOnTree rnd st = foldl (treeStep rnd) st [0..<treeCount]"

record House =
  house_x :: real
  house_z :: real
  house_w :: real
  house_d :: real

definition houses :: "House list" where
  "houses = [\<lparr>house_x = 50, house_z = 0, house_w = 12, house_d = 16\<rparr>,
             \<lparr>house_x = 30, house_z = -50, house_w = 10, house_d = 12\<rparr>,
             \<lparr>house_x = -40, house_z = -40, house_w = 14, house_d = 10\<rparr>,
             \<lparr>house_x = 0, house_z = 60, house_w = 16, house_d = 12\<rparr>]"

definition houseGift :: "RandomSource \<Rightarrow> House \<Rightarrow> GiftGen \<Rightarrow> GiftGen" where
  "houseGift rnd h st =
     (let rX = (rv rnd (calls st) - 0.5) * (house_w h - 5);
          rZ = (rv rnd (calls st + 1) - 0.5) * (house_d h - 5)
      in addGift rnd ((house_x h + rX) * VOXEL_SIZE) ((0 * VOXEL_SIZE) + 0.3) ((house_z h + rZ) * VOXEL_SIZE)
           (Some stocking) (st\<lparr>calls := calls st + 2\<rparr>))"

definition houseStep :: "RandomSource \<Rightarrow> GiftGen \<Rightarrow> House \<Rightarrow> GiftGen" where
  "houseStep rnd st h =
     (let numInside = 1 + \<lfloor>rv rnd (calls st) * 2\<rfloor>
      in foldl (\<lambda>s k. houseGift rnd h s) (st\<lparr>calls := calls st + 1\<rparr>) [0..numInside - 1])"

definition placeInHouses :: "RandomSource \<Rightarrow> GiftGen \<Rightarrow> GiftGen" where
  "placeInHouses rnd st = foldl (houseStep rnd) st houses"

definition pondCount :: nat where "pondCount = 4"

definition pondStep :: "RandomSource \<Rightarrow> GiftGen \<Rightarrow> nat \<Rightarrow> GiftGen" where
  "pondStep rnd st i =
     (let angle = rv rnd (calls st) * pi * 2;
          r = rv rnd (calls st + 1) * 12;
          px = -35 + cos angle * r;
          pz = 35 + sin angle * r
      in addGift rnd (px * VOXEL_SIZE) ((-2 * VOXEL_SIZE) + 0.3) (pz * VOXEL_SIZE)
           (Some cane) (st\<lparr>calls := calls st + 2\<rparr>))"

definition placeOnPond :: "RandomSource \<Rightarrow> GiftGen \<Rightarrow> GiftGen" where
  "placeOnPond rnd st = foldl (pondStep rnd) st [0..<pondCount]"

text \<open>
  The scatter retry loop \<open>while (!valid && attempts < 50)\<close>. The result carries the
  final value of \<open>valid\<close>.
\<close>

function scatterLoop :: "RandomSource \<Rightarrow> nat \<Rightarrow> GiftGen \<Rightarrow> GiftGen \<times> bool" where
  "scatterLoop rnd attempts st =
     (if attempts < 50 then
        (let attempts' = attempts + 1;
             xVoxel = (rv rnd (calls st) - 0.5) * 160;
             zVoxel = (rv rnd (calls st + 1) - 0.5) * 160;
             st1 = st\<lparr>calls := calls st + 2\<rparr>
         in if sqrt (xVoxel\<^sup>2 + zVoxel\<^sup>2) < 6 then scatterLoop rnd attempts' st1
            else
              let yVoxel = getTerrainVoxelY xVoxel zVoxel;
                  worldY = (real_of_int yVoxel * VOXEL_SIZE) + 0.5
              in (addGift rnd (xVoxel * VOXEL_SIZE) worldY (zVoxel * VOXEL_SIZE) None st1, True))
      else (st, False))"
  by pat_completeness auto
termination
  by (relation "measure (\<lambda>(rnd, attempts, st). 50 - attempts)") auto

definition scatterStep :: "RandomSource \<Rightarrow> GiftGen \<Rightarrow> nat \<Rightarrow> GiftGen" where
  "scatterStep rnd st i = fst (scatterLoop rnd 0 st)"

definition targetInitial :: int where "targetInitial = 25"

definition scatter :: "RandomSource \<Rightarrow> GiftGen \<Rightarrow> GiftGen" where
  "scatter rnd st =
     (let currentCount = int (length (out st));
          remaining = max 0 (targetInitial - currentCount)
      in foldl (scatterStep rnd) st [0..<nat remaining])"

definition generateGiftsState :: "RandomSource \<Rightarrow> GiftGen" where
  "generateGiftsState rnd =
     scatter rnd (placeOnPond rnd (placeInHouses rnd (placeOnTree rnd
       \<lparr>out = [], idCounter = 0, calls = 0\<rparr>)))"

definition generateGifts :: "int \<Rightarrow> RandomSource \<Rightarrow> Gift list" where
  "generateGifts count rnd = out (generateGiftsState rnd)"

section \<open>Enemy placement (App.tsx)\<close>

definition maxRange :: real where "maxRange = 70"

text \<open>
  The placement retry loop \<open>while (!valid && attempts < 20)\<close> over the variables
  \<open>xVoxel\<close>, \<open>zVoxel\<close> (initially undefined, here \<open>None\<close>) and the call counter. A
  rejected sample stays assigned to \<open>xVoxel\<close> and \<open>zVoxel\<close>.
\<close>

function snowmanLoop :: "RandomSource \<Rightarrow> nat \<Rightarrow> real option \<times> real option \<times> nat
                          \<Rightarrow> real option \<times> real option \<times> nat" where
  "snowmanLoop rnd attempts (xVoxel, zVoxel, n) =
     (if attempts < 20 then
        (let attempts' = attempts + 1;
             xVoxel' = (rv rnd n - 0.5) * 2 * maxRange;
             zVoxel' = (rv rnd (n + 1) - 0.5) * 2 * maxRange
         in if sqrt (xVoxel'\<^sup>2 + zVoxel'\<^sup>2) < 8
            then snowmanLoop rnd attempts' (Some xVoxel', Some zVoxel', n + 2)
            else (Some xVoxel', Some zVoxel', n + 2))
      else (xVoxel, zVoxel, n))"
  by pat_completeness auto
termination
  by (relation "measure (\<lambda>(rnd, attempts, v). 20 - attempts)") auto

text \<open>\<open>if (!v) v = 10\<close>: undefined and zero are falsy.\<close>

definition orTen :: "real option \<Rightarrow> real" where
  "orTen v = (case v of None \<Rightarrow> 10 | Some x \<Rightarrow> if x = 0 then 10 else x)"

definition snowmanStep :: "RandomSource \<Rightarrow> Snowman list \<times> nat \<Rightarrow> int \<Rightarrow> Snowman list \<times> nat" where
  "snowmanStep rnd acc i =
     (case acc of (sms, n) \<Rightarrow>
        (case (if i = 0 then (Some 15, Some 15, n)
               else if i = 1 then (Some (-20), Some (-10), n)
               else snowmanLoop rnd 0 (None, None, n))
         of (xv, zv, n1) \<Rightarrow>
           let xVoxel = orTen xv;
               zVoxel = orTen zv;
               yVoxel = getTerrainVoxelY xVoxel zVoxel;
               worldY = real_of_int yVoxel * VOXEL_SIZE
           in (sms @ [\<lparr>sid = i,
                            sposition = (xVoxel * VOXEL_SIZE, worldY, zVoxel * VOXEL_SIZE),
                            srotation = rv rnd n1 * pi * 2,
                            hp = 3, isDead = False\<rparr>], n1 + 1)))"

definition generateSnowmen :: "int \<Rightarrow> RandomSource \<Rightarrow> Snowman list" where
  "generateSnowmen count rnd = fst (foldl (snowmanStep rnd) ([], 0) [0..count - 1])"

section \<open>World generator (VoxelAssets)\<close>

definition WORLD_RADIUS :: int where "WORLD_RADIUS = 90"

subsection \<open>Palette\<close>

definition SNOW :: nat where "SNOW = 0xffffff"
definition SNOW_SHADOW :: nat where "SNOW_SHADOW = 0xe6e6fa"
definition DIRT :: nat where "DIRT = 0x4a3c31"
definition STONE :: nat where "STONE = 0x666666"
definition PATH :: nat where "PATH = 0xcabba0"
definition ICE :: nat where "ICE = 0xa5f2f3"
definition WATER :: nat where "WATER = 0x0a1a2a"
definition BRICK_MAIN :: nat where "BRICK_MAIN = 0xb94e48"
definition BRICK_DARK :: nat where "BRICK_DARK = 0x8f332d"
definition ROOF_SLATE :: nat where "ROOF_SLATE = 0x2d3436"
definition WOOD_TRUNK :: nat where "WOOD_TRUNK = 0x2e1e14"
definition WOOD_PLANKS :: nat where "WOOD_PLANKS = 0x5d4037"
definition LEAF_DARK :: nat where "LEAF_DARK = 0x0f2e13"
definition LEAF_LIGHT :: nat where "LEAF_LIGHT = 0x1f4523"
definition LEAF_SNOWY :: nat where "LEAF_SNOWY = 0x5c7a60"
definition DECOR_RED :: nat where "DECOR_RED = 0xe60026"
definition DECOR_GOLD :: nat where "DECOR_GOLD = 0xffd700"
definition DECOR_SILVER :: nat where "DECOR_SILVER = 0xe0e0e0"
definition DECOR_ROYAL_BLUE :: nat where "DECOR_ROYAL_BLUE = 0x0047ab"
definition DECOR_PURPLE :: nat where "DECOR_PURPLE = 0x800080"
definition DECOR_PINK :: nat where "DECOR_PINK = 0xff1493"
definition LIGHT_STRING :: nat where "LIGHT_STRING = 0xffaa00"
definition LIGHT_WARM :: nat where "LIGHT_WARM = 0xffcf48"
definition STAR_CORE :: nat where "STAR_CORE = 0xffcc00"
definition STAR_GLOW :: nat where "STAR_GLOW = 0xff9900"
definition LAMP_WARM :: nat where "LAMP_WARM = 0xffaa44"
definition LAMP_POST :: nat where "LAMP_POST = 0x1a1a1a"

subsection \<open>Helper types and the generator's mutable state\<close>

record VoxelData =
  vx :: int
  vy :: int
  vz :: int
  vcolor :: nat

record DoorData =
  dposition :: Vector3Tuple
  drotation :: real

text \<open>
  The local variables of \<open>generateWorld\<close> that its helpers mutate. The keys of
  \<open>occupied\<close> and \<open>pathHeightMap\<close> are the strings \<open>`${vx},${vy},${vz}`\<close> and
  \<open>`${px},${pz}`\<close> built from rounded numbers; they are modelled by the integer tuples
  they print. \<open>rcalls\<close> counts the \<open>Math.random()\<close> calls made so far.
\<close>

record Gen =
  regularVoxels :: "VoxelData list"
  glowingVoxels :: "VoxelData list"
  interactiveIce :: "VoxelData list"
  waterVoxels :: "VoxelData list"
  lampCoords :: "Vector3Tuple list"
  doors :: "DoorData list"
  occupied :: "(int \<times> int \<times> int) set"
  pathHeightMap :: "int \<times> int \<rightharpoonup> real"
  rcalls :: nat

definition emptyGen :: Gen where
  "emptyGen = \<lparr>regularVoxels = [], glowingVoxels = [], interactiveIce = [], waterVoxels = [],
               lampCoords = [], doors = [], occupied = {}, pathHeightMap = Map.empty,
               rcalls = 0\<rparr>"

definition tick :: "Gen \<Rightarrow> Gen" where
  "tick st = st\<lparr>rcalls := rcalls st + 1\<rparr>"

subsection \<open>Numeric helpers of the host language\<close>

text \<open>\<open>Math.round\<close> rounds half up; \<open>%\<close> takes the sign of the dividend.\<close>

definition js_round :: "real \<Rightarrow> int" where
  "js_round x = \<lfloor>x + 1 / 2\<rfloor>"

definition js_mod :: "real \<Rightarrow> real \<Rightarrow> real" where
  "js_mod a b = a - b * real_of_int (if 0 \<le> a / b then \<lfloor>a / b\<rfloor> else \<lceil>a / b\<rceil>)"

definition js_atan2 :: "real \<Rightarrow> real \<Rightarrow> real" where
  "js_atan2 y x =
     (if 0 < x then arctan (y / x)
      else if x < 0 \<and> 0 \<le> y then arctan (y / x) + pi
      else if x < 0 \<and> y < 0 then arctan (y / x) - pi
      else if 0 < y then pi / 2
      else if y < 0 then - pi / 2
      else 0)"

text \<open>
  The values a counting loop visits: \<open>for (v = a; v <= b; v += d)\<close> and
  \<open>for (v = a; v < b; v++)\<close>.
\<close>

definition rangeLe :: "real \<Rightarrow> real \<Rightarrow> real \<Rightarrow> real list" where
  "rangeLe a b d = map (\<lambda>k. a + real k * d) [0..<nat (\<lfloor>(b - a) / d\<rfloor> + 1)]"

definition rangeLt :: "real \<Rightarrow> real \<Rightarrow> real list" where
  "rangeLt a b = map (\<lambda>k. a + real k) [0..<nat \<lceil>b - a\<rceil>]"

subsection \<open>The occupancy-checked insertion\<close>

definition add :: "real \<Rightarrow> real \<Rightarrow> real \<Rightarrow> nat \<Rightarrow> bool \<Rightarrow> Gen \<Rightarrow> Gen" where
  "add x y z color isGlowing st =
     (let vx' = js_round x;
          vy' = js_round y;
          vz' = js_round z;
          key = (vx', vy', vz')
      in if key \<in> occupied st then st
         else
           let st1 = st\<lparr>occupied := insert key (occupied st)\<rparr>;
               v = \<lparr>vx = vx', vy = vy', vz = vz', vcolor = color\<rparr>
           in if isGlowing then st1\<lparr>glowingVoxels := glowingVoxels st1 @ [v]\<rparr>
              else st1\<lparr>regularVoxels := regularVoxels st1 @ [v]\<rparr>)"

subsection \<open>Paths and lamps\<close>

definition buildLamp :: "real \<Rightarrow> real \<Rightarrow> real \<Rightarrow> Gen \<Rightarrow> Gen" where
  "buildLamp x y z st =
     (let poleHeight = 9;
          st1 = foldl (\<lambda>s h. add x (y + real h) z LAMP_POST False s) st [0..<poleHeight];
          armY = y + real poleHeight - 1;
          st2 = add x armY z LAMP_POST False st1;
          st3 = add x (armY + 0.5) z LAMP_POST False st2;
          lightY = armY - 0.5;
          st4 = add x lightY (z + 0.6) LAMP_POST False st3;
          st5 = add x lightY (z - 0.6) LAMP_POST False st4;
          st6 = add (x + 0.6) lightY z LAMP_POST False st5;
          st7 = add (x - 0.6) lightY z LAMP_POST False st6;
          st8 = add x lightY z LAMP_WARM True st7
      in st8\<lparr>lampCoords := lampCoords st8 @
               [(x * VOXEL_SIZE, (lightY - 1) * VOXEL_SIZE, z * VOXEL_SIZE)]\<rparr>)"

definition markPath :: "real \<Rightarrow> real \<Rightarrow> Gen \<Rightarrow> Gen" where
  "markPath px pz st =
     st\<lparr>pathHeightMap := (pathHeightMap st)((js_round px, js_round pz) \<mapsto> 0)\<rparr>"

definition pathCells :: "real \<Rightarrow> real \<Rightarrow> real \<Rightarrow> Gen \<Rightarrow> Gen" where
  "pathCells cx cz widthOverride st =
     foldl (\<lambda>s ox. foldl (\<lambda>s' oz. markPath (cx + ox) (cz + oz) s') s
                      (rangeLe (- widthOverride) widthOverride 0.5))
       st (rangeLe (- widthOverride) widthOverride 0.5)"

definition lampStep :: "RandomSource \<Rightarrow> real \<Rightarrow> real \<Rightarrow> real \<Rightarrow> real \<Rightarrow> int \<Rightarrow> Gen \<Rightarrow> int \<Rightarrow> Gen" where
  "lampStep rnd x1 z1 x2 z2 numLamps st i =
     (let t = real_of_int i / real_of_int numLamps;
          lx = x1 + (x2 - x1) * t;
          lz = z1 + (z2 - z1) * t;
          offset = 2.5;
          side = (if i mod 2 = 0 then 1 else -1);
          lampX = js_round (lx + (rv rnd (rcalls st) * 0.5));
          lampZ = js_round (lz + side * offset)
      in buildLamp (real_of_int lampX) 0 (real_of_int lampZ) (tick st))"

definition createPath :: "RandomSource \<Rightarrow> real \<Rightarrow> real \<Rightarrow> real \<Rightarrow> real \<Rightarrow> real \<Rightarrow> Gen \<Rightarrow> Gen" where
  "createPath rnd x1 z1 x2 z2 widthOverride st =
     (let dist = sqrt ((x2 - x1)\<^sup>2 + (z2 - z1)\<^sup>2);
          steps = \<lceil>dist * 2\<rceil>;
          st1 = foldl (\<lambda>s i.
                   let t = real_of_int i / real_of_int steps;
                       cx = x1 + (x2 - x1) * t;
                       cz = z1 + (z2 - z1) * t
                   in pathCells cx cz widthOverride s) st [0..steps]
      in if dist > 10 then
           (let lampSpacing = 25;
                numLamps = \<lfloor>dist / lampSpacing\<rfloor>
            in foldl (lampStep rnd x1 z1 x2 z2 numLamps) st1 [1..numLamps - 1])
         else st1)"

subsection \<open>Houses\<close>

record Building =
  bx :: real
  bz :: real
  bw :: real
  bd :: real
  bh :: real
  br :: real

definition buildings :: "Building list" where
  "buildings = [\<lparr>bx = 50, bz = 0, bw = 12, bd = 16, bh = 12, br = 1\<rparr>,
                \<lparr>bx = 30, bz = -50, bw = 10, bd = 12, bh = 10, br = 0\<rparr>,
                \<lparr>bx = -40, bz = -40, bw = 14, bd = 10, bh = 14, br = 1\<rparr>,
                \<lparr>bx = 0, bz = 60, bw = 16, bd = 12, bh = 11, br = 1\<rparr>]"

definition rotate :: "real \<Rightarrow> real \<Rightarrow> real \<Rightarrow> real \<Rightarrow> real \<Rightarrow> real \<times> real" where
  "rotate cx cz rotation x z = (if rotation = 0 then (cx + x, cz + z) else (cx - z, cz + x))"

definition groundY :: real where "groundY = 0"

text \<open>
  The body of the innermost loop of \<open>buildHouse\<close> for one \<open>(y, x, z)\<close>, over the
  generator state and the flag \<open>doorRecorded\<close>. \<open>a || Math.random() > c\<close> draws a
  number only when \<open>a\<close> is false.
\<close>

definition houseCell :: "RandomSource \<Rightarrow> real \<Rightarrow> real \<Rightarrow> real \<Rightarrow> real \<Rightarrow> real \<Rightarrow> real \<Rightarrow>
                          real \<Rightarrow> real \<Rightarrow> Gen \<times> bool \<Rightarrow> real \<Rightarrow> Gen \<times> bool" where
  "houseCell rnd cx cz width depth height rotation y x acc z =
     (case acc of (st, doorRecorded) \<Rightarrow>
      let pos = rotate cx cz rotation x z in
      if y < height then
        (if \<bar>x\<bar> \<ge> width / 2 - 1 \<or> \<bar>z\<bar> \<ge> depth / 2 - 1 then
           (let isFront = \<bar>z - depth / 2\<bar> < 1.5;
                isDoorX = (x \<ge> -2 \<and> x \<le> 1);
                isDoorY = (y < 7)
            in if isFront \<and> isDoorX \<and> isDoorY then
                 (if \<not> doorRecorded \<and> x = -2 \<and> y = 0 then
                    (let hingePos = rotate cx cz rotation (-2.5) (depth / 2);
                         doorRot = (if rotation = 0 then 0 else - pi / 2)
                     in (st\<lparr>doors := doors st @
                              [\<lparr>dposition = (fst hingePos * VOXEL_SIZE, groundY * VOXEL_SIZE,
                                              snd hingePos * VOXEL_SIZE),
                                drotation = doorRot\<rparr>]\<rparr>, True))
                  else (st, doorRecorded))
               else
                 (let patterned = (js_mod \<bar>x * 3 + y * 2 + z\<bar> 7 < 2);
                      isDarkBrick = (patterned \<or> rv rnd (rcalls st) > 0.8);
                      st1 = (if patterned then st else tick st);
                      col = (if isDarkBrick then BRICK_DARK else BRICK_MAIN);
                      isWindowH = ((y > 3 \<and> y < 7) \<or> (y > height - 6 \<and> y < height - 2));
                      isWindowX = (\<bar>x\<bar> < 2 \<or> (width > 10 \<and> \<bar>\<bar>x\<bar> - width / 4\<bar> < 2))
                  in if isFront \<and> isWindowH \<and> isWindowX
                     then (add (fst pos) (groundY + y) (snd pos) LIGHT_WARM True st1, doorRecorded)
                     else (add (fst pos) (groundY + y) (snd pos) col False st1, doorRecorded)))
         else if y = 0 then (add (fst pos) (groundY + y) (snd pos) WOOD_PLANKS False st, doorRecorded)
         else (st, doorRecorded))
      else
        (let roofY = y - height;
             roofScale = 1 - (roofY / 8)
         in if \<bar>x\<bar> \<le> (width / 2 + 1) * roofScale \<and> \<bar>z\<bar> \<le> (depth / 2 + 1) then
              (let isSnowTop = (roofY > 6 \<or> rv rnd (rcalls st) > 0.7);
                   st1 = (if roofY > 6 then st else tick st)
               in (add (fst pos) (groundY + y) (snd pos)
                     (if isSnowTop then SNOW else ROOF_SLATE) False st1, doorRecorded))
            else (st, doorRecorded)))"

text \<open>
  The body of the chimney loop. \<open>Math.random() > 0.5 && cx_ === 0 && cz_ === 0\<close> always
  draws; the smoke height draws a second number when the test succeeds.
\<close>

definition chimneyCell :: "RandomSource \<Rightarrow> real \<Rightarrow> real \<Rightarrow> real \<Rightarrow> real \<Rightarrow> real \<Rightarrow> real \<Rightarrow>
                            int \<Rightarrow> Gen \<Rightarrow> int \<Rightarrow> Gen" where
  "chimneyCell rnd cx cz width height rotation y cx' st cz' =
     (let chimneyX = width / 3;
          chimneyZ = 0;
          pos = rotate cx cz rotation (chimneyX + real_of_int cx') (chimneyZ + real_of_int cz');
          isSmoke = (y > height + 8)
      in if isSmoke then
           (if rv rnd (rcalls st) > 0.5 \<and> cx' = 0 \<and> cz' = 0
            then add (fst pos) (groundY + y + rv rnd (rcalls st + 1) * 2) (snd pos) 0xaaaaaa False
                   (tick (tick st))
            else tick st)
         else add (fst pos) (groundY + y) (snd pos) BRICK_DARK False st)"

definition buildHouse :: "RandomSource \<Rightarrow> real \<Rightarrow> real \<Rightarrow> real \<Rightarrow> real \<Rightarrow> real \<Rightarrow> real \<Rightarrow> Gen \<Rightarrow> Gen" where
  "buildHouse rnd cx cz width depth height rotation st =
     (let walls =
            foldl (\<lambda>acc y.
               foldl (\<lambda>acc' x.
                  foldl (houseCell rnd cx cz width depth height rotation y x) acc'
                    (rangeLe (- depth / 2) (depth / 2) 1))
                 acc (rangeLe (- width / 2) (width / 2) 1))
              (st, False) (rangeLt 0 (height + 8))
      in foldl (\<lambda>s y.
            foldl (\<lambda>s' cx'.
               foldl (chimneyCell rnd cx cz width height rotation y cx') s' [-1..1])
              s [-1..1])
           (fst walls) (rangeLt (height / 2) (height + 10)))"

definition buildingPaths :: "RandomSource \<Rightarrow> Gen \<Rightarrow> Building \<Rightarrow> Gen" where
  "buildingPaths rnd st b =
     (let st1 = createPath rnd 0 0 (bx b) (bz b) 1.5 st in
      if br b = 0 then
        (let doorZ = bz b + bd b / 2 in createPath rnd (bx b) doorZ (bx b) (doorZ + 4) 3 st1)
      else
        (let doorX = bx b - bd b / 2 in createPath rnd doorX (bz b) (doorX - 4) (bz b) 3 st1))"

subsection \<open>Terrain\<close>

definition pondCenterX :: real where "pondCenterX = -35"
definition pondCenterZ :: real where "pondCenterZ = 35"
definition pondRadius :: real where "pondRadius = 18"
definition ISLAND_DEPTH_CENTER :: real where "ISLAND_DEPTH_CENTER = 45"
definition pondIceY :: int where "pondIceY = -2"
definition pondWaterY :: int where "pondWaterY = -6"

text \<open>
  The body of the loop \<open>for (y = bottomY; y <= surfaceY; y++)\<close> of one terrain column.
  The ice and water voxels are pushed onto their arrays directly.
\<close>

definition terrainLayer :: "RandomSource \<Rightarrow> int \<Rightarrow> int \<Rightarrow> bool \<Rightarrow> int \<Rightarrow> nat \<Rightarrow> bool \<Rightarrow> int \<Rightarrow>
                             Gen \<Rightarrow> int \<Rightarrow> Gen" where
  "terrainLayer rnd x z isIceSurface surfaceY surfaceColor isPath bottomY st y =
     (let depthFromSurface = surfaceY - y;
          heightFromBottom = y - bottomY
      in if isIceSurface then
           (if y = pondIceY then
              st\<lparr>interactiveIce := interactiveIce st @ [\<lparr>vx = x, vy = y, vz = z, vcolor = ICE\<rparr>]\<rparr>
            else if y < pondIceY \<and> y > pondWaterY then st
            else if y = pondWaterY then
              st\<lparr>waterVoxels := waterVoxels st @ [\<lparr>vx = x, vy = y, vz = z, vcolor = WATER\<rparr>]\<rparr>
            else if y < pondWaterY then
              (if y = pondWaterY - 1 then add (real_of_int x) (real_of_int y) (real_of_int z) DIRT False st
               else if heightFromBottom < 2
                 then add (real_of_int x) (real_of_int y) (real_of_int z) STONE False st
               else st)
            else st)
         else
           (let isCrust = (depthFromSurface \<le> 7);
                isBottom = (heightFromBottom \<le> 2)
            in if isCrust \<or> isBottom then
                 (if y = surfaceY
                    then add (real_of_int x) (real_of_int y) (real_of_int z) surfaceColor False st
                  else if depthFromSurface \<le> 2 \<and> \<not> isPath
                    then add (real_of_int x) (real_of_int y) (real_of_int z) DIRT False st
                  else add (real_of_int x) (real_of_int y) (real_of_int z)
                         (if rv rnd (rcalls st) > 0.85 then DIRT else STONE) False (tick st))
               else st))"

text \<open>The body of the two column loops for one \<open>(x, z)\<close>.\<close>

definition terrainColumn :: "RandomSource \<Rightarrow> int \<Rightarrow> Gen \<Rightarrow> int \<Rightarrow> Gen" where
  "terrainColumn rnd x st z =
     (let distSq = x * x + z * z;
          dist = sqrt (real_of_int distSq)
      in if dist > real_of_int WORLD_RADIUS then st
         else
           (let isPath = ((x, z) \<in> dom (pathHeightMap st));
                distToPond = sqrt ((real_of_int x - pondCenterX)\<^sup>2 + (real_of_int z - pondCenterZ)\<^sup>2);
                isPond = (distToPond < pondRadius);
                isIceSurface = (isPond \<and> distToPond < pondRadius - 2);
                noisy = (\<not> isPond \<and> \<not> isPath);
                terrainNoise = sin (real_of_int x * 0.05) * cos (real_of_int z * 0.05) * 6
                               + sin (real_of_int x * 0.1 + real_of_int z * 0.2) * 2;
                surfaceY = (if isPond then (if isIceSurface then pondIceY else -1)
                            else if isPath then 0
                            else \<lfloor>terrainNoise\<rfloor>);
                surfaceColor = (if isPond then (if isIceSurface then SNOW else DIRT)
                                else if isPath then PATH
                                else if rv rnd (rcalls st) > 0.7 \<and> surfaceY > 2 then SNOW_SHADOW
                                else SNOW);
                st1 = (if noisy then tick st else st);
                d = dist / real_of_int WORLD_RADIUS;
                bottomNoise = sin (real_of_int x * 0.15) * cos (real_of_int z * 0.15) * 4
                              + cos (real_of_int x * 0.3) * 2;
                structuralDepth = ISLAND_DEPTH_CENTER * (1 - d powr 1.8);
                totalDepth = max 5 (structuralDepth + bottomNoise);
                bottomY = \<lfloor>real_of_int surfaceY - totalDepth\<rfloor>
            in foldl (terrainLayer rnd x z isIceSurface surfaceY surfaceColor isPath bottomY) st1
                 [bottomY..surfaceY]))"

definition generateTerrain :: "RandomSource \<Rightarrow> Gen \<Rightarrow> Gen" where
  "generateTerrain rnd st =
     foldl (\<lambda>s x. foldl (terrainColumn rnd x) s [- WORLD_RADIUS..WORLD_RADIUS]) st
       [- WORLD_RADIUS..WORLD_RADIUS]"

subsection \<open>Tree\<close>

text \<open>
  The tree constants of \<open>generateWorld\<close> and the canopy radius of the slice at voxel
  height \<open>y\<close>: \<open>progress = y / treeHeight\<close>,
  \<open>currentRadius = maxRadius * (1 - progress) + (Math.sin(y * 0.5) * 1.5)\<close>.
\<close>

definition treeBaseY :: real where "treeBaseY = 0"
definition worldTreeHeight :: real where "worldTreeHeight = 100"
definition worldMaxRadius :: real where "worldMaxRadius = 32"

definition currentRadius :: "real \<Rightarrow> real" where
  "currentRadius y =
     (let progress = y / worldTreeHeight in
      worldMaxRadius * (1 - progress) + (sin (y * 0.5) * 1.5))"

definition trunkCell :: "real \<Rightarrow> real \<Rightarrow> real \<Rightarrow> Gen \<Rightarrow> real \<Rightarrow> Gen" where
  "trunkCell trunkR y x st z =
     (if x * x + z * z \<le> trunkR * trunkR then add x (treeBaseY + y) z WOOD_TRUNK False st else st)"

definition buildTrunk :: "Gen \<Rightarrow> Gen" where
  "buildTrunk st =
     foldl (\<lambda>s y.
        let trunkR = max 2 (4 - y * 0.05) in
        foldl (\<lambda>s' x. foldl (trunkCell trunkR y x) s' (rangeLe (- trunkR) trunkR 1))
          s (rangeLe (- trunkR) trunkR 1))
       st (rangeLt 0 (worldTreeHeight * 0.25))"

text \<open>
  The body of the canopy loops for one \<open>(y, x, z)\<close>. The draws happen in source order:
  the interior-fill test (only when the cell is not on the surface), the light-leaf
  test, and for surface cells outside the light strings the ornament test and, when it
  succeeds, the ornament colour.
\<close>

definition decorColor :: "real \<Rightarrow> nat" where
  "decorColor rand =
     (if rand < 0.3 then DECOR_RED
      else if rand < 0.45 then DECOR_GOLD
      else if rand < 0.6 then DECOR_ROYAL_BLUE
      else if rand < 0.75 then DECOR_PURPLE
      else if rand < 0.85 then DECOR_PINK
      else DECOR_SILVER)"

definition canopyCell :: "RandomSource \<Rightarrow> real \<Rightarrow> real \<Rightarrow> int \<Rightarrow> Gen \<Rightarrow> int \<Rightarrow> Gen" where
  "canopyCell rnd radius y x st z =
     (let distSq = real_of_int (x * x + z * z) in
      if distSq \<le> radius * radius then
        (let isSurface = (distSq > (radius - 3) * (radius - 3));
             fill = (isSurface \<or> rv rnd (rcalls st) > 0.85);
             st1 = (if isSurface then st else tick st)
         in if fill then
              (let worldY = treeBaseY + y;
                   col1 = (if rv rnd (rcalls st1) > 0.7 then LEAF_LIGHT else LEAF_DARK);
                   col2 = (if js_mod y 15 > 12 then LEAF_SNOWY else col1);
                   st2 = tick st1
               in if isSurface then
                    (let angle = js_atan2 (real_of_int z) (real_of_int x);
                         spiral1 = js_mod (angle * 5 + y * 0.25) (pi * 2);
                         spiral2 = js_mod (angle * 5 + y * 0.25 + pi) (pi * 2)
                     in if \<bar>spiral1\<bar> < 0.3 \<or> \<bar>spiral2\<bar> < 0.3
                        then add (real_of_int x) worldY (real_of_int z) LIGHT_STRING True st2
                        else if rv rnd (rcalls st2) > 0.93
                        then add (real_of_int x) worldY (real_of_int z)
                               (decorColor (rv rnd (rcalls st2 + 1))) True (tick (tick st2))
                        else add (real_of_int x) worldY (real_of_int z) col2 False (tick st2))
                  else add (real_of_int x) worldY (real_of_int z) col2 False st2)
            else st1)
      else st)"

definition buildCanopy :: "RandomSource \<Rightarrow> Gen \<Rightarrow> Gen" where
  "buildCanopy rnd st =
     foldl (\<lambda>s y.
        let radius = currentRadius y in
        foldl (\<lambda>s' x. foldl (canopyCell rnd radius y x) s' [- \<lceil>radius\<rceil>..\<lceil>radius\<rceil>])
          s [- \<lceil>radius\<rceil>..\<lceil>radius\<rceil>])
       st (rangeLt 8 worldTreeHeight)"

definition starY :: real where "starY = treeBaseY + worldTreeHeight + 1"

definition starCell :: "int \<Rightarrow> int \<Rightarrow> Gen \<Rightarrow> int \<Rightarrow> Gen" where
  "starCell x y st z =
     (if \<bar>x\<bar> + \<bar>y\<bar> + \<bar>z\<bar> \<le> 3
      then add (real_of_int x) (starY + real_of_int y) (real_of_int z) STAR_CORE True st
      else st)"

definition buildStar :: "Gen \<Rightarrow> Gen" where
  "buildStar st =
     foldl (\<lambda>s x. foldl (\<lambda>s' y. foldl (starCell x y) s' [-2..2]) s [-2..2]) st [-2..2]"

definition directions :: "(int \<times> int \<times> int) list" where
  "directions = [(1, 0, 0), (-1, 0, 0), (0, 1, 0), (0, -1, 0), (0, 0, 1), (0, 0, -1),
                 (1, 1, 0), (-1, 1, 0), (0, 1, 1), (0, 1, -1)]"

definition starRay :: "Gen \<Rightarrow> int \<times> int \<times> int \<Rightarrow> Gen" where
  "starRay st dir =
     (case dir of (d0, d1, d2) \<Rightarrow>
        let len = (if \<bar>d0\<bar> + \<bar>d1\<bar> + \<bar>d2\<bar> > 1 then 5 else 9) in
        foldl (\<lambda>s i. add (real_of_int (d0 * i)) (starY + real_of_int (d1 * i))
                        (real_of_int (d2 * i)) STAR_GLOW True s)
          st [2..len - 1])"

subsection \<open>The generator\<close>

definition generatePaths :: "RandomSource \<Rightarrow> Gen \<Rightarrow> Gen" where
  "generatePaths rnd st =
     (let st1 = foldl (buildingPaths rnd) st buildings;
          st2 = createPath rnd 0 0 (-35) 35 1.5 st1;
          st3 = createPath rnd (bx (buildings ! 0)) (bz (buildings ! 0))
                  (bx (buildings ! 1)) (bz (buildings ! 1)) 1.5 st2;
          st4 = createPath rnd (bx (buildings ! 1)) (bz (buildings ! 1))
                  (bx (buildings ! 2)) (bz (buildings ! 2)) 1.5 st3;
          st5 = createPath rnd (bx (buildings ! 2)) (bz (buildings ! 2)) (-35) 35 1.5 st4;
          st6 = createPath rnd (-35) 35 (bx (buildings ! 3)) (bz (buildings ! 3)) 1.5 st5
      in createPath rnd (bx (buildings ! 3)) (bz (buildings ! 3))
           (bx (buildings ! 0)) (bz (buildings ! 0)) 1.5 st6)"

definition generateHouses :: "RandomSource \<Rightarrow> Gen \<Rightarrow> Gen" where
  "generateHouses rnd st =
     foldl (\<lambda>s b. buildHouse rnd (bx b) (bz b) (bw b) (bd b) (bh b) (br b) s) st buildings"

definition generateWorldState :: "RandomSource \<Rightarrow> Gen" where
  "generateWorldState rnd =
     foldl starRay
       (buildStar (buildCanopy rnd (buildTrunk
          (generateTerrain rnd (generateHouses rnd (generatePaths rnd emptyGen))))))
       directions"

text \<open>The returned object, and all voxels of its four voxel arrays together.\<close>

record World =
  w_regularVoxels :: "VoxelData list"
  w_glowingVoxels :: "VoxelData list"
  w_lampCoords :: "Vector3Tuple list"
  w_doors :: "DoorData list"
  w_interactiveIce :: "VoxelData list"
  w_waterVoxels :: "VoxelData list"

definition generateWorld :: "RandomSource \<Rightarrow> World" where
  "generateWorld rnd =
     (let st = generateWorldState rnd in
      \<lparr>w_regularVoxels = regularVoxels st, w_glowingVoxels = glowingVoxels st,
       w_lampCoords = lampCoords st, w_doors = doors st,
       w_interactiveIce = interactiveIce st, w_waterVoxels = waterVoxels st\<rparr>)"

section \<open>Sample inputs\<close>

definition demoSnowman :: Snowman where
  "demoSnowman = \<lparr>sid = 0, sposition = (15/4, 1/4, 15/4), srotation = 0, hp = 3, isDead = False\<rparr>"

definition demoGift :: "int \<Rightarrow> Gift" where
  "demoGift i = \<lparr>gid = i, gposition = (0, 0, 0), gcolor = ''#ff0000'', collected = False,
                 gtype = box, grotation = Some (0, 0, 0)\<rparr>"

section \<open>Auxiliary notions for the generators\<close>

text \<open>
  \<open>grows P k st st'\<close>: between the generator states \<open>st\<close> and \<open>st'\<close> exactly \<open>k\<close>
  gifts were appended, the \<open>j\<close>-th of them satisfies \<open>P j\<close> and has the id
  \<open>idCounter st + j\<close>, and \<open>idCounter\<close> advanced by \<open>k\<close>.
\<close>

definition grows :: "(nat \<Rightarrow> Gift \<Rightarrow> bool) \<Rightarrow> nat \<Rightarrow> GiftGen \<Rightarrow> GiftGen \<Rightarrow> bool" where
  "grows P k st st' \<longleftrightarrow>
     (\<exists>new. out st' = out st @ new \<and> length new = k \<and>
            (\<forall>j<k. P j (new ! j) \<and> gid (new ! j) = idCounter st + int j) \<and>
            idCounter st' = idCounter st + int k)"

text \<open>The 50 samples drawn from call \<open>n\<close> on are all within the exclusion radius.\<close>

definition rejected :: "RandomSource \<Rightarrow> nat \<Rightarrow> bool" where
  "rejected rnd n \<longleftrightarrow>
     sqrt (((rv rnd n - 0.5) * 160)\<^sup>2 + ((rv rnd (n + 1) - 0.5) * 160)\<^sup>2) < 6"

definition exhausted :: "RandomSource \<Rightarrow> nat \<Rightarrow> bool" where
  "exhausted rnd n \<longleftrightarrow> (\<forall>k<50. rejected rnd (n + 2 * k))"

text \<open>What each placement strategy guarantees of a gift it places.\<close>

definition onTreeSurface :: "nat \<Rightarrow> Gift \<Rightarrow> bool" where
  "onTreeSurface i g \<longleftrightarrow>
     gtype g = (if i mod 2 = 0 then ornament else star) \<and> \<not> collected g \<and>
     (\<exists>h a. 0.15 \<le> h \<and> h \<le> 0.85 \<and>
            gposition g = (cos a * (radiusAtHeight h + 1.5) * VOXEL_SIZE,
                           h * treeHeight * VOXEL_SIZE,
                           sin a * (radiusAtHeight h + 1.5) * VOXEL_SIZE))"

definition inHouse :: "Gift \<Rightarrow> bool" where
  "inHouse g \<longleftrightarrow>
     gtype g = stocking \<and> \<not> collected g \<and>
     (\<exists>x z. gposition g = (x * VOXEL_SIZE, 0.3, z * VOXEL_SIZE))"

definition onPond :: "Gift \<Rightarrow> bool" where
  "onPond g \<longleftrightarrow>
     gtype g = cane \<and> \<not> collected g \<and>
     (\<exists>x z. gposition g = (x * VOXEL_SIZE, (-2 * VOXEL_SIZE) + 0.3, z * VOXEL_SIZE) \<and>
            sqrt ((x + 35)\<^sup>2 + (z - 35)\<^sup>2) < 12)"

definition scattered :: "Gift \<Rightarrow> bool" where
  "scattered g \<longleftrightarrow>
     \<not> collected g \<and>
     (\<exists>xVoxel zVoxel.
        gposition g = (xVoxel * VOXEL_SIZE,
                       real_of_int (getTerrainVoxelY xVoxel zVoxel) * VOXEL_SIZE + 0.5,
                       zVoxel * VOXEL_SIZE) \<and>
        6 \<le> sqrt (xVoxel\<^sup>2 + zVoxel\<^sup>2))"

text \<open>
  The generator state when the three fixed-count strategies are done, and the property
  that every iteration of the scatter loop ends with \<open>valid = true\<close>.
\<close>

definition fixedPlacement :: "RandomSource \<Rightarrow> GiftGen" where
  "fixedPlacement rnd =
     placeOnPond rnd (placeInHouses rnd (placeOnTree rnd \<lparr>out = [], idCounter = 0, calls = 0\<rparr>))"

definition scatterValidUpTo :: "RandomSource \<Rightarrow> GiftGen \<Rightarrow> nat \<Rightarrow> bool" where
  "scatterValidUpTo rnd st m \<longleftrightarrow>
     (\<forall>i<m. snd (scatterLoop rnd 0 (foldl (scatterStep rnd) st [0..<i])))"

definition scatterAllValid :: "RandomSource \<Rightarrow> bool" where
  "scatterAllValid rnd \<longleftrightarrow>
     scatterValidUpTo rnd (fixedPlacement rnd)
       (nat (max 0 (targetInitial - int (length (out (fixedPlacement rnd))))))"

text \<open>
  What holds of the snowman placed at index \<open>i\<close>: its id, its initial hit points, and
  a position on the terrain, at the fixed scenic spot for the first two.
\<close>

definition placedAt :: "nat \<Rightarrow> Snowman \<Rightarrow> bool" where
  "placedAt i sm \<longleftrightarrow>
     sid sm = int i \<and> hp sm = 3 \<and> \<not> isDead sm \<and>
     (\<exists>x z. sposition sm = (x * VOXEL_SIZE, real_of_int (getTerrainVoxelY x z) * VOXEL_SIZE,
                              z * VOXEL_SIZE) \<and>
            (i = 0 \<longrightarrow> x = 15 \<and> z = 15) \<and> (i = 1 \<longrightarrow> x = -20 \<and> z = -10))"

section \<open>Auxiliary notions for the world generator\<close>

definition coord :: "VoxelData \<Rightarrow> int \<times> int \<times> int" where
  "coord v = (vx v, vy v, vz v)"

definition allVoxels :: "World \<Rightarrow> VoxelData list" where
  "allVoxels w = w_regularVoxels w @ w_glowingVoxels w @ w_interactiveIce w @ w_waterVoxels w"

text \<open>The columns whose surface is pond ice: within \<open>pondRadius - 2\<close> of the pond centre.\<close>

definition iceCol :: "int \<Rightarrow> int \<Rightarrow> bool" where
  "iceCol x z \<longleftrightarrow>
     sqrt ((real_of_int x - pondCenterX)\<^sup>2 + (real_of_int z - pondCenterZ)\<^sup>2) < pondRadius - 2"

text \<open>
  The invariant of the generator state: the voxels that went through \<open>add\<close> have
  pairwise different cells, all recorded in \<open>occupied\<close>, and in an ice column none of
  them lies between the water level and the surface; the ice voxels lie at level
  \<open>-2\<close> and the water voxels at level \<open>-6\<close> of ice columns, with pairwise different
  cells, all within the set \<open>C\<close> of cells the terrain loops have visited.
\<close>

definition WInv :: "(int \<times> int \<times> int) set \<Rightarrow> Gen \<Rightarrow> bool" where
  "WInv C st \<longleftrightarrow>
     distinct (map coord (regularVoxels st @ glowingVoxels st)) \<and>
     coord ` set (regularVoxels st @ glowingVoxels st) \<subseteq> occupied st \<and>
     (\<forall>v\<in>set (regularVoxels st @ glowingVoxels st).
        iceCol (vx v) (vz v) \<longrightarrow> 0 \<le> vy v \<or> vy v < -6) \<and>
     (\<forall>v\<in>set (interactiveIce st). vy v = -2 \<and> iceCol (vx v) (vz v)) \<and>
     (\<forall>v\<in>set (waterVoxels st). vy v = -6 \<and> iceCol (vx v) (vz v)) \<and>
     distinct (map coord (interactiveIce st)) \<and>
     distinct (map coord (waterVoxels st)) \<and>
     coord ` set (interactiveIce st @ waterVoxels st) \<subseteq> C"

definition colset :: "(int \<times> int) set \<Rightarrow> (int \<times> int \<times> int) set" where
  "colset P = {(x, y, z). (x, z) \<in> P}"

section \<open>Verification: the session state machine\<close>

subsection \<open>The hit transition\<close>

lemma find_map_same_id:
  assumes "\<And>s. sid (f s) = sid s"
  shows "find (\<lambda>s. sid s = i) (map (\<lambda>s. if sid s = i then f s else s) xs)
         = map_option f (find (\<lambda>s. sid s = i) xs)"
  using assms by (induction xs) auto

lemma filter_map_other_id:
  assumes "\<And>s. sid (f s) = sid s"
  shows "filter (\<lambda>s. sid s \<noteq> i) (map (\<lambda>s. if sid s = i then f s else s) xs)
         = filter (\<lambda>s. sid s \<noteq> i) xs"
  using assms by (induction xs) auto

lemma map_sid_map_same_id:
  assumes "\<And>s. sid (f s) = sid s"
  shows "map sid (map (\<lambda>s. if sid s = i then f s else s) xs) = map sid xs"
  using assms by (induction xs) auto

lemma hit_noop_unknown:
  "find (\<lambda>s. sid s = i) (snowmen st) = None \<Longrightarrow> handleSnowmanHit i st = st"
  by (simp add: handleSnowmanHit_def)

lemma hit_noop_dead:
  "find (\<lambda>s. sid s = i) (snowmen st) = Some sm \<Longrightarrow> isDead sm \<Longrightarrow> handleSnowmanHit i st = st"
  by (simp add: handleSnowmanHit_def)

lemma hit_alive_snowmen:
  assumes "find (\<lambda>s. sid s = i) (snowmen st) = Some sm" "\<not> isDead sm"
  shows "snowmen (handleSnowmanHit i st) =
         map (\<lambda>s. if sid s = i then s\<lparr>hp := hp sm - 1, isDead := (hp sm - 1 \<le> 0)\<rparr> else s) (snowmen st)"
  using assms by (simp add: handleSnowmanHit_def Let_def)

lemma hit_alive_find:
  assumes "find (\<lambda>s. sid s = i) (snowmen st) = Some sm" "\<not> isDead sm"
  shows "find (\<lambda>s. sid s = i) (snowmen (handleSnowmanHit i st)) =
         Some (sm\<lparr>hp := hp sm - 1, isDead := (hp sm - 1 \<le> 0)\<rparr>)"
  using assms by (simp add: hit_alive_snowmen find_map_same_id)

lemma hit_alive_others:
  assumes "find (\<lambda>s. sid s = i) (snowmen st) = Some sm" "\<not> isDead sm"
  shows "filter (\<lambda>s. sid s \<noteq> i) (snowmen (handleSnowmanHit i st)) = filter (\<lambda>s. sid s \<noteq> i) (snowmen st)"
    and "map sid (snowmen (handleSnowmanHit i st)) = map sid (snowmen st)"
  using assms by (simp_all add: hit_alive_snowmen filter_map_other_id map_sid_map_same_id)

lemma hit_alive_gifts:
  assumes "find (\<lambda>s. sid s = i) (snowmen st) = Some sm" "\<not> isDead sm"
  shows "gifts (handleSnowmanHit i st) =
         gifts st @ (if hp sm - 1 \<le> 0 then [rewardGift i sm] else [])"
  using assms by (simp add: handleSnowmanHit_def Let_def)

lemma hit_rest_unchanged:
  "foundCount (handleSnowmanHit i st) = foundCount st \<and>
   gameOver (handleSnowmanHit i st) = gameOver st \<and>
   started (handleSnowmanHit i st) = started st"
  by (simp add: handleSnowmanHit_def Let_def split: option.splits)

lemma rewardGift_fields:
  "rewardGift i sm = \<lparr>gid = 1000 + i,
      gposition = (fst (sposition sm), fst (snd (sposition sm)) + 1, snd (snd (sposition sm))),
      gcolor = ''#ff00ff'', collected = False, gtype = gingerbread, grotation = Some (0, 0, 0)\<rparr>"
  by (simp add: rewardGift_def split: prod.splits)

text \<open>
  Claim C2. \<open>hit(id)\<close> returns the previous state when no snowman has the id or the
  snowman found is dead. Otherwise the snowman found has its hit points decremented by
  one and is marked dead exactly when the new value is \<open>\<le> 0\<close>; snowmen with other ids,
  the order of ids, \<open>foundCount\<close>, \<open>gameOver\<close> and \<open>started\<close> are unchanged; and the
  gift list grows by exactly one gift (id \<open>1000 + id\<close>, not collected, the snowman's
  position lifted by 1 on the vertical axis, type gingerbread) when the snowman dies and
  is unchanged otherwise. A snowman with 3 hit points goes through 2, 1, 0 (dead), the
  reward appears after the third hit only, and a fourth hit changes nothing.
\<close>

theorem snowman_hit_transition:
  "(find (\<lambda>s. sid s = i) (snowmen st) = None \<longrightarrow> handleSnowmanHit i st = st) \<and>
   (\<forall>sm. find (\<lambda>s. sid s = i) (snowmen st) = Some sm \<and> isDead sm \<longrightarrow>
      handleSnowmanHit i st = st) \<and>
   (\<forall>sm. find (\<lambda>s. sid s = i) (snowmen st) = Some sm \<and> \<not> isDead sm \<longrightarrow>
      find (\<lambda>s. sid s = i) (snowmen (handleSnowmanHit i st)) =
        Some (sm\<lparr>hp := hp sm - 1, isDead := (hp sm - 1 \<le> 0)\<rparr>) \<and>
      filter (\<lambda>s. sid s \<noteq> i) (snowmen (handleSnowmanHit i st)) =
        filter (\<lambda>s. sid s \<noteq> i) (snowmen st) \<and>
      map sid (snowmen (handleSnowmanHit i st)) = map sid (snowmen st) \<and>
      gifts (handleSnowmanHit i st) =
        gifts st @
        (if hp sm - 1 \<le> 0
         then [\<lparr>gid = 1000 + i,
                gposition = (fst (sposition sm), fst (snd (sposition sm)) + 1,
                             snd (snd (sposition sm))),
                gcolor = ''#ff00ff'', collected = False, gtype = gingerbread,
                grotation = Some (0, 0, 0)\<rparr>]
         else []) \<and>
      foundCount (handleSnowmanHit i st) = foundCount st \<and>
      gameOver (handleSnowmanHit i st) = gameOver st \<and>
      started (handleSnowmanHit i st) = started st) \<and>
   (\<forall>sm. find (\<lambda>s. sid s = i) (snowmen st) = Some sm \<and> hp sm = 3 \<and> \<not> isDead sm \<longrightarrow>
      (let s1 = handleSnowmanHit i st; s2 = handleSnowmanHit i s1;
           s3 = handleSnowmanHit i s2; s4 = handleSnowmanHit i s3
       in find (\<lambda>s. sid s = i) (snowmen s1) = Some (sm\<lparr>hp := 2, isDead := False\<rparr>) \<and>
          find (\<lambda>s. sid s = i) (snowmen s2) = Some (sm\<lparr>hp := 1, isDead := False\<rparr>) \<and>
          find (\<lambda>s. sid s = i) (snowmen s3) = Some (sm\<lparr>hp := 0, isDead := True\<rparr>) \<and>
          gifts s1 = gifts st \<and> gifts s2 = gifts st \<and>
          gifts s3 = gifts st @ [rewardGift i sm] \<and>
          s4 = s3))"
proof (intro conjI allI impI)
  show "find (\<lambda>s. sid s = i) (snowmen st) = None \<Longrightarrow> handleSnowmanHit i st = st"
    by (rule hit_noop_unknown)
next
  fix sm assume "find (\<lambda>s. sid s = i) (snowmen st) = Some sm \<and> isDead sm"
  then show "handleSnowmanHit i st = st" by (simp add: hit_noop_dead)
next
  fix sm assume a: "find (\<lambda>s. sid s = i) (snowmen st) = Some sm \<and> \<not> isDead sm"
  then show "find (\<lambda>s. sid s = i) (snowmen (handleSnowmanHit i st)) =
        Some (sm\<lparr>hp := hp sm - 1, isDead := (hp sm - 1 \<le> 0)\<rparr>)"
    by (simp add: hit_alive_find)
  from a show "filter (\<lambda>s. sid s \<noteq> i) (snowmen (handleSnowmanHit i st)) =
        filter (\<lambda>s. sid s \<noteq> i) (snowmen st)"
    by (simp add: hit_alive_others)
  from a show "map sid (snowmen (handleSnowmanHit i st)) = map sid (snowmen st)"
    by (simp add: hit_alive_others)
  from a have "gifts (handleSnowmanHit i st) =
         gifts st @ (if hp sm - 1 \<le> 0 then [rewardGift i sm] else [])"
    by (simp add: hit_alive_gifts)
  then show "gifts (handleSnowmanHit i st) =
        gifts st @
        (if hp sm - 1 \<le> 0
         then [\<lparr>gid = 1000 + i,
                gposition = (fst (sposition sm), fst (snd (sposition sm)) + 1,
                             snd (snd (sposition sm))),
                gcolor = ''#ff00ff'', collected = False, gtype = gingerbread,
                grotation = Some (0, 0, 0)\<rparr>]
         else [])"
    by (simp only: rewardGift_fields)
  show "foundCount (handleSnowmanHit i st) = foundCount st"
    "gameOver (handleSnowmanHit i st) = gameOver st"
    "started (handleSnowmanHit i st) = started st"
    by (simp_all add: hit_rest_unchanged)
next
  fix sm assume a: "find (\<lambda>s. sid s = i) (snowmen st) = Some sm \<and> hp sm = 3 \<and> \<not> isDead sm"
  define s1 where "s1 = handleSnowmanHit i st"
  define s2 where "s2 = handleSnowmanHit i s1"
  define s3 where "s3 = handleSnowmanHit i s2"
  define s4 where "s4 = handleSnowmanHit i s3"
  have f1: "find (\<lambda>s. sid s = i) (snowmen s1) = Some (sm\<lparr>hp := 2, isDead := False\<rparr>)"
    using a hit_alive_find[of i st sm] by (simp add: s1_def)
  have g1: "gifts s1 = gifts st"
    using a hit_alive_gifts[of i st sm] by (simp add: s1_def)
  have f2: "find (\<lambda>s. sid s = i) (snowmen s2) = Some (sm\<lparr>hp := 1, isDead := False\<rparr>)"
    using f1 hit_alive_find[of i s1 "sm\<lparr>hp := 2, isDead := False\<rparr>"] by (simp add: s2_def)
  have g2: "gifts s2 = gifts st"
    using f1 g1 hit_alive_gifts[of i s1 "sm\<lparr>hp := 2, isDead := False\<rparr>"] by (simp add: s2_def)
  have f3: "find (\<lambda>s. sid s = i) (snowmen s3) = Some (sm\<lparr>hp := 0, isDead := True\<rparr>)"
    using f2 hit_alive_find[of i s2 "sm\<lparr>hp := 1, isDead := False\<rparr>"] by (simp add: s3_def)
  have g3: "gifts s3 = gifts st @ [rewardGift i sm]"
    using f2 g2 hit_alive_gifts[of i s2 "sm\<lparr>hp := 1, isDead := False\<rparr>"]
    by (simp add: s3_def rewardGift_def)
  have e4: "s4 = s3"
    using f3 hit_noop_dead[of i s3 "sm\<lparr>hp := 0, isDead := True\<rparr>"] by (simp add: s4_def)
  show "let s1 = handleSnowmanHit i st; s2 = handleSnowmanHit i s1;
           s3 = handleSnowmanHit i s2; s4 = handleSnowmanHit i s3
       in find (\<lambda>s. sid s = i) (snowmen s1) = Some (sm\<lparr>hp := 2, isDead := False\<rparr>) \<and>
          find (\<lambda>s. sid s = i) (snowmen s2) = Some (sm\<lparr>hp := 1, isDead := False\<rparr>) \<and>
          find (\<lambda>s. sid s = i) (snowmen s3) = Some (sm\<lparr>hp := 0, isDead := True\<rparr>) \<and>
          gifts s1 = gifts st \<and> gifts s2 = gifts st \<and>
          gifts s3 = gifts st @ [rewardGift i sm] \<and>
          s4 = s3"
    using f1 f2 f3 g1 g2 g3 e4 unfolding Let_def s1_def s2_def s3_def s4_def by simp
qed

theorem snowman_hit_transition_witness:
  "gifts (handleSnowmanHit 0 (initGame [] [demoSnowman])) = [] \<and>
   gifts (handleSnowmanHit 0 (handleSnowmanHit 0 (initGame [] [demoSnowman]))) = [] \<and>
   gifts (handleSnowmanHit 0 (handleSnowmanHit 0 (handleSnowmanHit 0 (initGame [] [demoSnowman])))) =
     [\<lparr>gid = 1000, gposition = (15/4, 5/4, 15/4), gcolor = ''#ff00ff'', collected = False,
       gtype = gingerbread, grotation = Some (0, 0, 0)\<rparr>] \<and>
   handleSnowmanHit 7 (initGame [] [demoSnowman]) = initGame [] [demoSnowman]"
  using snowman_hit_transition[of 0 "initGame [] [demoSnowman]"]
        snowman_hit_transition[of 7 "initGame [] [demoSnowman]"]
  by (simp add: initGame_def initialState_def demoSnowman_def rewardGift_def Let_def)

subsection \<open>The collect transition\<close>

text \<open>
  For an id that is present, the transition behaves as specified: a collected gift gives
  a no-op, an uncollected one is marked, \<open>foundCount\<close> grows by one and \<open>gameOver\<close> is
  re-evaluated; a second collect is a no-op; and with pairwise different ids the number
  of collected gifts stays equal to \<open>foundCount\<close>.
\<close>

lemma collect_noop_collected:
  "find (\<lambda>g. gid g = i) (gifts st) = Some g \<Longrightarrow> collected g \<Longrightarrow> handleCollect i st = st"
  by (simp add: handleCollect_def)

lemma find_map_collect:
  "find (\<lambda>g. gid g = i) (map (\<lambda>g. if gid g = i then g\<lparr>collected := True\<rparr> else g) gs)
     = map_option (\<lambda>g. g\<lparr>collected := True\<rparr>) (find (\<lambda>g. gid g = i) gs)"
  by (induction gs) auto

lemma filter_map_collect:
  "filter (\<lambda>g. gid g \<noteq> i) (map (\<lambda>g. if gid g = i then g\<lparr>collected := True\<rparr> else g) gs)
     = filter (\<lambda>g. gid g \<noteq> i) gs"
  by (induction gs) auto

lemma collect_known:
  assumes "find (\<lambda>g. gid g = i) (gifts st) = Some g" "\<not> collected g"
  shows "foundCount (handleCollect i st) = foundCount st + 1"
    and "gameOver (handleCollect i st) = (30 \<le> foundCount st + 1)"
    and "find (\<lambda>g. gid g = i) (gifts (handleCollect i st)) = Some (g\<lparr>collected := True\<rparr>)"
    and "filter (\<lambda>g. gid g \<noteq> i) (gifts (handleCollect i st)) = filter (\<lambda>g. gid g \<noteq> i) (gifts st)"
    and "snowmen (handleCollect i st) = snowmen st"
    and "started (handleCollect i st) = started st"
proof -
  have e: "handleCollect i st =
        st\<lparr>gifts := map (\<lambda>g. if gid g = i then g\<lparr>collected := True\<rparr> else g) (gifts st),
           foundCount := foundCount st + 1, gameOver := (30 \<le> foundCount st + 1)\<rparr>"
    using assms by (simp add: handleCollect_def Let_def)
  show "foundCount (handleCollect i st) = foundCount st + 1"
    and "gameOver (handleCollect i st) = (30 \<le> foundCount st + 1)"
    and "snowmen (handleCollect i st) = snowmen st"
    and "started (handleCollect i st) = started st"
    by (simp_all add: e)
  show "find (\<lambda>g. gid g = i) (gifts (handleCollect i st)) = Some (g\<lparr>collected := True\<rparr>)"
    using assms(1) by (simp add: e find_map_collect)
  show "filter (\<lambda>g. gid g \<noteq> i) (gifts (handleCollect i st)) = filter (\<lambda>g. gid g \<noteq> i) (gifts st)"
    by (simp add: e filter_map_collect)
qed

lemma collect_twice_known:
  assumes "find (\<lambda>g. gid g = i) (gifts st) = Some g"
  shows "handleCollect i (handleCollect i st) = handleCollect i st"
proof (cases "collected g")
  case True
  then show ?thesis using assms by (simp add: collect_noop_collected)
next
  case False
  have "find (\<lambda>g. gid g = i) (gifts (handleCollect i st)) = Some (g\<lparr>collected := True\<rparr>)"
    using assms False by (rule collect_known(3))
  then show ?thesis by (rule collect_noop_collected) simp
qed

lemma count_collect_distinct:
  assumes "distinct (map gid gs)" "find (\<lambda>g. gid g = i) gs = Some g" "\<not> collected g"
  shows "length (filter collected (map (\<lambda>g. if gid g = i then g\<lparr>collected := True\<rparr> else g) gs))
         = length (filter collected gs) + 1"
  using assms
proof (induction gs)
  case Nil
  then show ?case by simp
next
  case (Cons a gs)
  show ?case
  proof (cases "gid a = i")
    case True
    then have a: "a = g" using Cons.prems(2) by simp
    have "gid a \<notin> gid ` set gs" using Cons.prems(1) by simp
    then have "\<forall>b\<in>set gs. gid b \<noteq> i" using True by (metis imageI)
    then have "map (\<lambda>g. if gid g = i then g\<lparr>collected := True\<rparr> else g) gs = gs"
      by (induction gs) auto
    then show ?thesis using True a Cons.prems(3) by simp
  next
    case False
    then have "find (\<lambda>g. gid g = i) gs = Some g" using Cons.prems(2) by simp
    with Cons.IH Cons.prems(1,3) False show ?thesis by simp
  qed
qed

lemma collect_known_keeps_count:
  assumes "distinct (map gid (gifts st))" "find (\<lambda>g. gid g = i) (gifts st) \<noteq> None"
    "foundCount st = collectedCount st"
  shows "foundCount (handleCollect i st) = collectedCount (handleCollect i st)"
proof -
  from assms(2) obtain g where g: "find (\<lambda>g. gid g = i) (gifts st) = Some g" by auto
  show ?thesis
  proof (cases "collected g")
    case True
    then show ?thesis using g assms(3) by (simp add: collect_noop_collected)
  next
    case False
    have "collectedCount (handleCollect i st) = collectedCount st + 1"
      using g False count_collect_distinct[OF assms(1) g False]
      by (simp add: collectedCount_def handleCollect_def Let_def)
    then show ?thesis using assms(3) collect_known(1)[OF g False] by simp
  qed
qed

text \<open>
  Claim C1, evaluated on a collection that holds gifts 0 and 1 only: \<open>collect(5)\<close> finds
  no gift, the guard \<open>gift && gift.collected\<close> does not fire, and the transition
  increments \<open>foundCount\<close> although no gift changes.
\<close>

theorem collect_unknown_id_not_noop:
  "find (\<lambda>g. gid g = 5) (gifts (initGame [demoGift 0, demoGift 1] [])) = None \<and>
   handleCollect 5 (initGame [demoGift 0, demoGift 1] []) \<noteq> initGame [demoGift 0, demoGift 1] [] \<and>
   foundCount (initGame [demoGift 0, demoGift 1] []) = 0 \<and>
   foundCount (handleCollect 5 (initGame [demoGift 0, demoGift 1] [])) = 1 \<and>
   gifts (handleCollect 5 (initGame [demoGift 0, demoGift 1] [])) = [demoGift 0, demoGift 1]"
  by (simp add: handleCollect_def initGame_def initialState_def demoGift_def Let_def)

text \<open>
  Claim C3, evaluated on the same collection: the state reached by \<open>collect(5)\<close> has
  \<open>foundCount = 1\<close> while no gift is collected.
\<close>

theorem foundCount_exceeds_collected:
  "foundCount (run (initGame [demoGift 0, demoGift 1] []) [Collect 5]) = 1 \<and>
   collectedCount (run (initGame [demoGift 0, demoGift 1] []) [Collect 5]) = 0"
  by (simp add: run_def handleCollect_def initGame_def initialState_def demoGift_def Let_def
      collectedCount_def)

subsection \<open>The win condition\<close>

lemma step_gameOver_inv:
  "gameOver s = (30 \<le> foundCount s) \<Longrightarrow> gameOver (step s e) = (30 \<le> foundCount (step s e))"
  by (cases e) (auto simp: handleCollect_def handleSnowmanHit_def startGame_def Let_def
      split: option.splits)

lemma step_foundCount_mono: "foundCount s \<le> foundCount (step s e)"
  by (cases e) (auto simp: handleCollect_def handleSnowmanHit_def startGame_def Let_def
      split: option.splits)

lemma run_snoc: "run s (evs @ [e]) = step (run s evs) e"
  by (simp add: run_def)

lemma run_gameOver_inv:
  "gameOver s = (30 \<le> foundCount s) \<Longrightarrow> gameOver (run s evs) = (30 \<le> foundCount (run s evs))"
proof (induction evs rule: rev_induct)
  case Nil
  then show ?case by (simp add: run_def)
next
  case (snoc e evs)
  then show ?case by (simp add: run_snoc step_gameOver_inv)
qed

lemma run_foundCount_mono: "foundCount s \<le> foundCount (run s evs)"
proof (induction evs rule: rev_induct)
  case Nil
  then show ?case by (simp add: run_def)
next
  case (snoc e evs)
  have "foundCount (run s evs) \<le> foundCount (step (run s evs) e)"
    by (rule step_foundCount_mono)
  with snoc show ?case by (simp add: run_snoc)
qed

lemma run_append: "run s (xs @ ys) = run (run s xs) ys"
  by (simp add: run_def)

lemma run_take_foundCount_mono:
  assumes "j \<le> k"
  shows "foundCount (run s (take j evs)) \<le> foundCount (run s (take k evs))"
proof -
  have "take k evs = take j evs @ take (k - j) (drop j evs)"
    using assms by (metis le_add_diff_inverse take_add)
  then have "run s (take k evs) = run (run s (take j evs)) (take (k - j) (drop j evs))"
    by (simp add: run_append)
  then show ?thesis by (simp add: run_foundCount_mono)
qed

lemma initGame_inv: "gameOver (initGame gs sms) = (30 \<le> foundCount (initGame gs sms))"
  by (simp add: initGame_def initialState_def)

text \<open>
  Claim C4. Along any run from the initial session state, \<open>gameOver\<close> holds after the
  first \<open>k\<close> transitions exactly when \<open>foundCount\<close> has reached 30 after some prefix of
  at most \<open>k\<close> transitions: it becomes true at the first transition that brings
  \<open>foundCount\<close> to 30 and is true in every later state.
\<close>

theorem gameOver_first_reaches_goal:
  "gameOver (run (initGame gs sms) (take k evs)) =
     (\<exists>j\<le>k. 30 \<le> foundCount (run (initGame gs sms) (take j evs)))"
proof -
  have inv: "\<And>n. gameOver (run (initGame gs sms) (take n evs)) =
                 (30 \<le> foundCount (run (initGame gs sms) (take n evs)))"
    by (rule run_gameOver_inv[OF initGame_inv])
  show ?thesis
  proof
    assume "gameOver (run (initGame gs sms) (take k evs))"
    then have "30 \<le> foundCount (run (initGame gs sms) (take k evs))" by (simp add: inv)
    then show "\<exists>j\<le>k. 30 \<le> foundCount (run (initGame gs sms) (take j evs))" by blast
  next
    assume "\<exists>j\<le>k. 30 \<le> foundCount (run (initGame gs sms) (take j evs))"
    then obtain j where j: "j \<le> k" "30 \<le> foundCount (run (initGame gs sms) (take j evs))"
      by blast
    from run_take_foundCount_mono[OF j(1), of "initGame gs sms" evs] j(2)
    have "30 \<le> foundCount (run (initGame gs sms) (take k evs))" by linarith
    then show "gameOver (run (initGame gs sms) (take k evs))" by (simp add: inv)
  qed
qed

theorem gameOver_first_reaches_goal_witness:
  "gameOver (run (initGame (map demoGift [0..29]) []) (take 30 (map Collect [0..29]))) \<and>
   \<not> gameOver (run (initGame (map demoGift [0..29]) []) (take 0 (map Collect [0..29])))"
proof -
  have a: "30 \<le> foundCount (run (initGame (map demoGift [0..29]) []) (take 30 (map Collect [0..29])))"
    by code_simp
  have b: "\<not> 30 \<le> foundCount (run (initGame (map demoGift [0..29]) []) (take 0 (map Collect [0..29])))"
    by (simp add: run_def initGame_def initialState_def)
  have "gameOver (run (initGame (map demoGift [0..29]) []) (take 30 (map Collect [0..29])))"
    using gameOver_first_reaches_goal[of "map demoGift [0..29]" "[]" 30 "map Collect [0..29]"] a
    by blast
  moreover have "\<not> gameOver (run (initGame (map demoGift [0..29]) []) (take 0 (map Collect [0..29])))"
    using gameOver_first_reaches_goal[of "map demoGift [0..29]" "[]" 0 "map Collect [0..29]"] b
    by simp
  ultimately show ?thesis by simp
qed

section \<open>Verification: the terrain height function\<close>

lemma sqrt_less_pos: "0 < b \<Longrightarrow> (sqrt a < b) = (a < b\<^sup>2)"
proof -
  assume b: "0 < b"
  have "(sqrt a < sqrt (b\<^sup>2)) = (a < b\<^sup>2)" by (rule real_sqrt_less_iff)
  with b show ?thesis by simp
qed

text \<open>
  Claim C5. The height is a function of \<open>(x, z)\<close> alone and follows the policy of the
  specification: \<open>-2\<close> within distance 16 of the pond centre \<open>(-35, 35)\<close>, else \<open>0\<close>
  within distance 5 of the origin, else the floor of the noise expression. It is \<open>0\<close>
  at the origin and \<open>-2\<close> at the pond centre.
\<close>

theorem terrain_height_policy:
  "getTerrainVoxelY x z = terrainHeight_spec x z \<and>
   getTerrainVoxelY x z =
     (if sqrt ((x + 35)\<^sup>2 + (z - 35)\<^sup>2) < 16 then -2
      else if sqrt (x\<^sup>2 + z\<^sup>2) < 5 then 0
      else \<lfloor>sin (x * 0.05) * cos (z * 0.05) * 6 + sin (x * 0.1 + z * 0.2) * 2\<rfloor>) \<and>
   getTerrainVoxelY 0 0 = 0 \<and>
   getTerrainVoxelY (-35) 35 = -2"
  by (simp add: getTerrainVoxelY_def terrainHeight_spec_def euclid_def Let_def sqrt_less_pos)

section \<open>Verification: collectible placement\<close>

lemma rv_bounds: "0 \<le> rv rnd n" "rv rnd n < 1"
  using Rep_rand01[of "rnd n"] by (simp_all add: rv_def)

lemma grows_same:
  "out st' = out st \<Longrightarrow> idCounter st' = idCounter st \<Longrightarrow> grows P 0 st st'"
  by (simp add: grows_def)

lemma grows_from_cong:
  "out st0 = out st \<Longrightarrow> idCounter st0 = idCounter st \<Longrightarrow> grows P k st0 st' = grows P k st st'"
  by (simp add: grows_def)

lemma grows_trans:
  assumes "grows P j st st1" "grows (\<lambda>i. P (j + i)) k st1 st2"
  shows "grows P (j + k) st st2"
proof -
  from assms(1) obtain n1 where n1: "out st1 = out st @ n1" "length n1 = j"
    "\<forall>i<j. P i (n1 ! i) \<and> gid (n1 ! i) = idCounter st + int i"
    "idCounter st1 = idCounter st + int j"
    unfolding grows_def by blast
  from assms(2) obtain n2 where n2: "out st2 = out st1 @ n2" "length n2 = k"
    "\<forall>i<k. P (j + i) (n2 ! i) \<and> gid (n2 ! i) = idCounter st1 + int i"
    "idCounter st2 = idCounter st1 + int k"
    unfolding grows_def by blast
  have a: "out st2 = out st @ (n1 @ n2)" using n1 n2 by simp
  have b: "length (n1 @ n2) = j + k" using n1 n2 by simp
  have c: "P i ((n1 @ n2) ! i) \<and> gid ((n1 @ n2) ! i) = idCounter st + int i" if "i < j + k" for i
  proof (cases "i < j")
    case True
    then show ?thesis using n1 by (simp add: nth_append)
  next
    case False
    then have "i - j < k" using that by simp
    with n2(3) have "P (j + (i - j)) (n2 ! (i - j)) \<and> gid (n2 ! (i - j)) = idCounter st1 + int (i - j)"
      by blast
    with False show ?thesis using n1 by (simp add: nth_append)
  qed
  have d: "idCounter st2 = idCounter st + int (j + k)" using n1 n2 by simp
  show ?thesis unfolding grows_def using a b c d by blast
qed

lemma grows_weaken:
  assumes "grows P k st st'" "\<And>j g. j < k \<Longrightarrow> P j g \<Longrightarrow> Q j g"
  shows "grows Q k st st'"
  using assms unfolding grows_def by blast

lemma addGift_grows:
  assumes "\<And>c t r. (case ty of Some t0 \<Rightarrow> t = t0 | None \<Rightarrow> True) \<Longrightarrow>
             P 0 \<lparr>gid = idCounter st, gposition = (x, y, z), gcolor = c, collected = False,
                  gtype = t, grotation = r\<rparr>"
  shows "grows P 1 st (addGift rnd x y z ty st)"
  using assms unfolding grows_def addGift_def
  by (cases ty) (simp_all add: Let_def)

lemma grows_foldl_upt:
  assumes "\<And>s i. i < n \<Longrightarrow> grows (\<lambda>_. P i) 1 s (f s i)"
  shows "grows P n st (foldl f st [0..<n])"
  using assms
proof (induction n)
  case 0
  then show ?case by (simp add: grows_same)
next
  case (Suc n)
  have ih: "grows P n st (foldl f st [0..<n])" using Suc by simp
  have "grows (\<lambda>_. P n) 1 (foldl f st [0..<n]) (f (foldl f st [0..<n]) n)"
    using Suc.prems by simp
  then have "grows (\<lambda>i. P (n + i)) 1 (foldl f st [0..<n]) (f (foldl f st [0..<n]) n)"
    unfolding grows_def by auto
  from grows_trans[OF ih this] show ?case by simp
qed

lemma grows_from_calls: "grows P k (s\<lparr>calls := c\<rparr>) t = grows P k s t"
  by (simp add: grows_def)

lemma treeStep_grows: "grows (\<lambda>_. onTreeSurface i) 1 s (treeStep rnd s i)"
proof -
  define h where "h = 0.15 + (rv rnd (calls s) * 0.7)"
  define a where "a = rv rnd (calls s + 1) * pi * 2"
  have hb: "0.15 \<le> h" "h \<le> 0.85"
    using rv_bounds[of rnd "calls s"] by (simp_all add: h_def)
  have "grows (\<lambda>_. onTreeSurface i) 1 (s\<lparr>calls := calls s + 2\<rparr>)
          (addGift rnd (cos a * (radiusAtHeight h + 1.5) * VOXEL_SIZE)
             (h * treeHeight * VOXEL_SIZE) (sin a * (radiusAtHeight h + 1.5) * VOXEL_SIZE)
             (Some (if i mod 2 = 0 then ornament else star)) (s\<lparr>calls := calls s + 2\<rparr>))"
    by (rule addGift_grows) (use hb in \<open>auto simp: onTreeSurface_def\<close>)
  then have "grows (\<lambda>_. onTreeSurface i) 1 s
          (addGift rnd (cos a * (radiusAtHeight h + 1.5) * VOXEL_SIZE)
             (h * treeHeight * VOXEL_SIZE) (sin a * (radiusAtHeight h + 1.5) * VOXEL_SIZE)
             (Some (if i mod 2 = 0 then ornament else star)) (s\<lparr>calls := calls s + 2\<rparr>))"
    by (simp only: grows_from_calls)
  moreover have "treeStep rnd s i =
          addGift rnd (cos a * (radiusAtHeight h + 1.5) * VOXEL_SIZE)
             (h * treeHeight * VOXEL_SIZE) (sin a * (radiusAtHeight h + 1.5) * VOXEL_SIZE)
             (Some (if i mod 2 = 0 then ornament else star)) (s\<lparr>calls := calls s + 2\<rparr>)"
    by (simp add: treeStep_def Let_def h_def a_def)
  ultimately show ?thesis by simp
qed

lemma placeOnTree_grows: "grows onTreeSurface 12 st (placeOnTree rnd st)"
  unfolding placeOnTree_def treeCount_def
  by (rule grows_foldl_upt) (rule treeStep_grows)

lemma houseGift_grows: "grows (\<lambda>_. inHouse) 1 s (houseGift rnd h s)"
proof -
  have "grows (\<lambda>_. inHouse) 1 (s\<lparr>calls := calls s + 2\<rparr>)
          (addGift rnd ((house_x h + (rv rnd (calls s) - 0.5) * (house_w h - 5)) * VOXEL_SIZE)
             ((0 * VOXEL_SIZE) + 0.3)
             ((house_z h + (rv rnd (calls s + 1) - 0.5) * (house_d h - 5)) * VOXEL_SIZE)
             (Some stocking) (s\<lparr>calls := calls s + 2\<rparr>))"
    by (rule addGift_grows) (auto simp: inHouse_def)
  then have "grows (\<lambda>_. inHouse) 1 s
          (addGift rnd ((house_x h + (rv rnd (calls s) - 0.5) * (house_w h - 5)) * VOXEL_SIZE)
             ((0 * VOXEL_SIZE) + 0.3)
             ((house_z h + (rv rnd (calls s + 1) - 0.5) * (house_d h - 5)) * VOXEL_SIZE)
             (Some stocking) (s\<lparr>calls := calls s + 2\<rparr>))"
    by (simp only: grows_from_calls)
  then show ?thesis
    by (simp add: houseGift_def Let_def)
qed

lemma floor_rv2: "\<lfloor>rv rnd n * 2\<rfloor> = 0 \<or> \<lfloor>rv rnd n * 2\<rfloor> = 1"
proof -
  have "0 \<le> rv rnd n * 2" "rv rnd n * 2 < 2" using rv_bounds[of rnd n] by simp_all
  then have "0 \<le> \<lfloor>rv rnd n * 2\<rfloor>" "\<lfloor>rv rnd n * 2\<rfloor> < 2" by (simp_all add: floor_less_iff)
  then show ?thesis by linarith
qed

lemma houseStep_grows:
  "grows (\<lambda>_. inHouse) (nat (1 + \<lfloor>rv rnd (calls s) * 2\<rfloor>)) s (houseStep rnd s h)"
proof -
  let ?s0 = "s\<lparr>calls := calls s + 1\<rparr>"
  have c: "\<And>k t. grows (\<lambda>_. inHouse) k ?s0 t = grows (\<lambda>_. inHouse) k s t"
    by (rule grows_from_calls)
  from floor_rv2[of rnd "calls s"] show ?thesis
  proof
    assume f: "\<lfloor>rv rnd (calls s) * 2\<rfloor> = 0"
    have "houseStep rnd s h = houseGift rnd h ?s0"
      by (simp add: houseStep_def Let_def f)
    then have "grows (\<lambda>_. inHouse) 1 s (houseStep rnd s h)"
      using houseGift_grows[of ?s0 rnd h] c by simp
    then show ?thesis by (simp add: f)
  next
    assume f: "\<lfloor>rv rnd (calls s) * 2\<rfloor> = 1"
    have u: "[0..(1::int)] = [0, 1]" by (simp add: upto.simps)
    have e: "houseStep rnd s h = houseGift rnd h (houseGift rnd h ?s0)"
      by (simp add: houseStep_def Let_def f u)
    have "grows (\<lambda>_. inHouse) (1 + 1) ?s0 (houseGift rnd h (houseGift rnd h ?s0))"
      by (rule grows_trans[OF houseGift_grows houseGift_grows])
    then have "grows (\<lambda>_. inHouse) 2 ?s0 (houseGift rnd h (houseGift rnd h ?s0))"
      by (simp only: one_add_one)
    then have "grows (\<lambda>_. inHouse) 2 s (houseStep rnd s h)"
      by (simp only: c e)
    then show ?thesis by (simp add: f)
  qed
qed

lemma numInside_bounds:
  "1 \<le> nat (1 + \<lfloor>rv rnd n * 2\<rfloor>)" "nat (1 + \<lfloor>rv rnd n * 2\<rfloor>) \<le> 2"
  using floor_rv2[of rnd n] by auto

lemma placeInHouses_grows:
  "\<exists>b. 4 \<le> b \<and> b \<le> 8 \<and> grows (\<lambda>_. inHouse) b st (placeInHouses rnd st) \<and>
       (\<forall>v. (\<forall>n. \<lfloor>rv rnd n * 2\<rfloor> = v) \<longrightarrow> b = 4 * nat (1 + v))"
proof -
  define h1 h2 h3 h4 where "h1 = houses ! 0" and "h2 = houses ! 1" and "h3 = houses ! 2"
    and "h4 = houses ! 3"
  have hs: "houses = [h1, h2, h3, h4]" by (simp add: houses_def h1_def h2_def h3_def h4_def)
  define s1 where "s1 = houseStep rnd st h1"
  define s2 where "s2 = houseStep rnd s1 h2"
  define s3 where "s3 = houseStep rnd s2 h3"
  define s4 where "s4 = houseStep rnd s3 h4"
  define k1 where "k1 = nat (1 + \<lfloor>rv rnd (calls st) * 2\<rfloor>)"
  define k2 where "k2 = nat (1 + \<lfloor>rv rnd (calls s1) * 2\<rfloor>)"
  define k3 where "k3 = nat (1 + \<lfloor>rv rnd (calls s2) * 2\<rfloor>)"
  define k4 where "k4 = nat (1 + \<lfloor>rv rnd (calls s3) * 2\<rfloor>)"
  have e: "placeInHouses rnd st = s4"
    by (simp add: placeInHouses_def hs s1_def s2_def s3_def s4_def)
  have g1: "grows (\<lambda>_. inHouse) k1 st s1" unfolding k1_def s1_def by (rule houseStep_grows)
  have g2: "grows (\<lambda>_. inHouse) k2 s1 s2" unfolding k2_def s2_def by (rule houseStep_grows)
  have g3: "grows (\<lambda>_. inHouse) k3 s2 s3" unfolding k3_def s3_def by (rule houseStep_grows)
  have g4: "grows (\<lambda>_. inHouse) k4 s3 s4" unfolding k4_def s4_def by (rule houseStep_grows)
  have "grows (\<lambda>_. inHouse) (k1 + k2 + k3 + k4) st s4"
    using grows_trans[OF grows_trans[OF grows_trans[OF g1 g2] g3] g4] .
  moreover have "4 \<le> k1 + k2 + k3 + k4" "k1 + k2 + k3 + k4 \<le> 8"
    using numInside_bounds[of rnd "calls st"] numInside_bounds[of rnd "calls s1"]
      numInside_bounds[of rnd "calls s2"] numInside_bounds[of rnd "calls s3"]
    unfolding k1_def k2_def k3_def k4_def by linarith+
  moreover have "\<forall>v. (\<forall>n. \<lfloor>rv rnd n * 2\<rfloor> = v) \<longrightarrow> k1 + k2 + k3 + k4 = 4 * nat (1 + v)"
    unfolding k1_def k2_def k3_def k4_def by auto
  ultimately show ?thesis using e by blast
qed

lemma pondStep_grows: "grows (\<lambda>_. onPond) 1 s (pondStep rnd s i)"
proof -
  define a where "a = rv rnd (calls s) * pi * 2"
  define r where "r = rv rnd (calls s + 1) * 12"
  have rb: "0 \<le> r" "r < 12" using rv_bounds[of rnd "calls s + 1"] by (simp_all add: r_def)
  have "(cos a * r)\<^sup>2 + (sin a * r)\<^sup>2 = r\<^sup>2 * ((sin a)\<^sup>2 + (cos a)\<^sup>2)"
    by algebra
  also have "\<dots> = r\<^sup>2" by simp
  finally have "sqrt ((cos a * r)\<^sup>2 + (sin a * r)\<^sup>2) = r" using rb by simp
  then have d: "sqrt ((-35 + cos a * r + 35)\<^sup>2 + (35 + sin a * r - 35)\<^sup>2) < 12"
    using rb by simp
  have "grows (\<lambda>_. onPond) 1 (s\<lparr>calls := calls s + 2\<rparr>)
          (addGift rnd ((-35 + cos a * r) * VOXEL_SIZE) ((-2 * VOXEL_SIZE) + 0.3)
             ((35 + sin a * r) * VOXEL_SIZE) (Some cane) (s\<lparr>calls := calls s + 2\<rparr>))"
  proof (rule addGift_grows)
    fix c t rot
    assume "case Some cane of None \<Rightarrow> True | Some t0 \<Rightarrow> t = t0"
    then have t: "t = cane" by simp
    show "onPond \<lparr>gid = idCounter (s\<lparr>calls := calls s + 2\<rparr>),
            gposition = ((-35 + cos a * r) * VOXEL_SIZE, (-2 * VOXEL_SIZE) + 0.3,
                         (35 + sin a * r) * VOXEL_SIZE),
            gcolor = c, collected = False, gtype = t, grotation = rot\<rparr>"
      unfolding onPond_def using d t
      by (intro conjI exI[of _ "-35 + cos a * r"] exI[of _ "35 + sin a * r"]) simp_all
  qed
  then have "grows (\<lambda>_. onPond) 1 s
          (addGift rnd ((-35 + cos a * r) * VOXEL_SIZE) ((-2 * VOXEL_SIZE) + 0.3)
             ((35 + sin a * r) * VOXEL_SIZE) (Some cane) (s\<lparr>calls := calls s + 2\<rparr>))"
    by (simp only: grows_from_calls)
  then show ?thesis
    by (simp add: pondStep_def Let_def a_def r_def)
qed

lemma placeOnPond_grows: "grows (\<lambda>_. onPond) 4 st (placeOnPond rnd st)"
  unfolding placeOnPond_def pondCount_def
  by (rule grows_foldl_upt) (rule pondStep_grows)

declare scatterLoop.simps [simp del]

lemma scatterLoop_unfold:
  "scatterLoop rnd attempts st =
     (if attempts < 50 then
        (if rejected rnd (calls st)
         then scatterLoop rnd (attempts + 1) (st\<lparr>calls := calls st + 2\<rparr>)
         else (addGift rnd ((rv rnd (calls st) - 0.5) * 160 * VOXEL_SIZE)
                 (real_of_int (getTerrainVoxelY ((rv rnd (calls st) - 0.5) * 160)
                                 ((rv rnd (calls st + 1) - 0.5) * 160)) * VOXEL_SIZE + 0.5)
                 ((rv rnd (calls st + 1) - 0.5) * 160 * VOXEL_SIZE) None
                 (st\<lparr>calls := calls st + 2\<rparr>), True))
      else (st, False))"
  by (subst scatterLoop.simps) (simp add: Let_def rejected_def)

lemma scatterLoop_grows:
  "grows (\<lambda>_. scattered) (if snd (scatterLoop rnd a st) then 1 else 0) st
     (fst (scatterLoop rnd a st))"
proof (induction "50 - a" arbitrary: a st)
  case 0
  then have "\<not> a < 50" by simp
  then show ?case by (subst (1 2) scatterLoop_unfold) (simp add: grows_same)
next
  case (Suc n)
  then have lt: "a < 50" by simp
  let ?st1 = "st\<lparr>calls := calls st + 2\<rparr>"
  show ?case
  proof (cases "rejected rnd (calls st)")
    case True
    have n: "n = 50 - (a + 1)" using Suc(2) by simp
    have e: "scatterLoop rnd a st = scatterLoop rnd (a + 1) ?st1"
      using lt True by (subst scatterLoop_unfold) simp
    have "grows (\<lambda>_. scattered) (if snd (scatterLoop rnd (a + 1) ?st1) then 1 else 0) ?st1
            (fst (scatterLoop rnd (a + 1) ?st1))"
      by (rule Suc(1)[OF n])
    then show ?thesis by (simp only: e grows_from_calls)
  next
    case False
    let ?x = "(rv rnd (calls st) - 0.5) * 160"
    let ?z = "(rv rnd (calls st + 1) - 0.5) * 160"
    have e: "scatterLoop rnd a st =
         (addGift rnd (?x * VOXEL_SIZE) (real_of_int (getTerrainVoxelY ?x ?z) * VOXEL_SIZE + 0.5)
            (?z * VOXEL_SIZE) None ?st1, True)"
      using lt False by (subst scatterLoop_unfold) simp
    have far: "6 \<le> sqrt (?x\<^sup>2 + ?z\<^sup>2)" using False by (simp add: rejected_def)
    have "grows (\<lambda>_. scattered) 1 ?st1
           (addGift rnd (?x * VOXEL_SIZE) (real_of_int (getTerrainVoxelY ?x ?z) * VOXEL_SIZE + 0.5)
            (?z * VOXEL_SIZE) None ?st1)"
    proof (rule addGift_grows)
      fix c t rot
      show "scattered \<lparr>gid = idCounter ?st1,
              gposition = (?x * VOXEL_SIZE, real_of_int (getTerrainVoxelY ?x ?z) * VOXEL_SIZE + 0.5,
                           ?z * VOXEL_SIZE),
              gcolor = c, collected = False, gtype = t, grotation = rot\<rparr>"
        unfolding scattered_def using far
        by (intro conjI exI[of _ ?x] exI[of _ ?z]) simp_all
    qed
    then show ?thesis by (simp only: e grows_from_calls fst_conv snd_conv if_True)
  qed
qed

lemma scatterLoop_valid:
  "snd (scatterLoop rnd a st) = (\<exists>k. a + k < 50 \<and> \<not> rejected rnd (calls st + 2 * k))"
proof (induction "50 - a" arbitrary: a st)
  case 0
  then have "\<not> a < 50" by simp
  then show ?case by (subst scatterLoop_unfold) simp
next
  case (Suc n)
  then have lt: "a < 50" by simp
  let ?st1 = "st\<lparr>calls := calls st + 2\<rparr>"
  show ?case
  proof (cases "rejected rnd (calls st)")
    case True
    have n: "n = 50 - (a + 1)" using Suc(2) by simp
    have e: "scatterLoop rnd a st = scatterLoop rnd (a + 1) ?st1"
      using lt True by (subst scatterLoop_unfold) simp
    have ih: "snd (scatterLoop rnd (a + 1) ?st1) =
            (\<exists>k. a + 1 + k < 50 \<and> \<not> rejected rnd (calls ?st1 + 2 * k))"
      by (rule Suc(1)[OF n])
    have "(\<exists>k. a + 1 + k < 50 \<and> \<not> rejected rnd (calls ?st1 + 2 * k)) =
          (\<exists>k. a + k < 50 \<and> \<not> rejected rnd (calls st + 2 * k))"
    proof
      assume "\<exists>k. a + 1 + k < 50 \<and> \<not> rejected rnd (calls ?st1 + 2 * k)"
      then obtain k where "a + 1 + k < 50" "\<not> rejected rnd (calls ?st1 + 2 * k)" by blast
      then have "a + Suc k < 50 \<and> \<not> rejected rnd (calls st + 2 * Suc k)"
        by (simp add: add.commute add.left_commute)
      then show "\<exists>k. a + k < 50 \<and> \<not> rejected rnd (calls st + 2 * k)" by blast
    next
      assume "\<exists>k. a + k < 50 \<and> \<not> rejected rnd (calls st + 2 * k)"
      then obtain k where k: "a + k < 50" "\<not> rejected rnd (calls st + 2 * k)" by blast
      with True have "k \<noteq> 0" by (cases k) auto
      then obtain j where j: "k = Suc j" by (cases k) auto
      with k have "a + 1 + j < 50 \<and> \<not> rejected rnd (calls ?st1 + 2 * j)"
        by (simp add: add.commute add.left_commute)
      then show "\<exists>k. a + 1 + k < 50 \<and> \<not> rejected rnd (calls ?st1 + 2 * k)" by blast
    qed
    with ih e show ?thesis by simp
  next
    case False
    have "snd (scatterLoop rnd a st)"
      using lt False by (subst scatterLoop_unfold) simp
    moreover have "\<exists>k. a + k < 50 \<and> \<not> rejected rnd (calls st + 2 * k)"
      using lt False by (intro exI[of _ 0]) simp
    ultimately show ?thesis by simp
  qed
qed

lemma scatterLoop_valid0: "snd (scatterLoop rnd 0 st) = (\<not> exhausted rnd (calls st))"
  by (simp add: scatterLoop_valid exhausted_def)

lemma scatterStep_grows:
  "grows (\<lambda>_. scattered) (if snd (scatterLoop rnd 0 st) then 1 else 0) st (scatterStep rnd st i)"
  unfolding scatterStep_def by (rule scatterLoop_grows)

lemma scatter_fold_grows:
  "\<exists>k. k \<le> m \<and> grows (\<lambda>_. scattered) k st (foldl (scatterStep rnd) st [0..<m]) \<and>
       ((k = m) = scatterValidUpTo rnd st m)"
proof (induction m)
  case 0
  show ?case by (simp add: grows_same scatterValidUpTo_def)
next
  case (Suc m)
  let ?sm = "foldl (scatterStep rnd) st [0..<m]"
  from Suc obtain k where k: "k \<le> m" "grows (\<lambda>_. scattered) k st ?sm"
    "(k = m) = scatterValidUpTo rnd st m" by blast
  define d :: nat where "d = (if snd (scatterLoop rnd 0 ?sm) then 1 else 0)"
  have "grows (\<lambda>_. scattered) d ?sm (scatterStep rnd ?sm m)"
    unfolding d_def by (rule scatterStep_grows)
  with k(2) have g: "grows (\<lambda>_. scattered) (k + d) st (scatterStep rnd ?sm m)"
    by (rule grows_trans)
  have f: "foldl (scatterStep rnd) st [0..<Suc m] = scatterStep rnd ?sm m" by simp
  have v: "scatterValidUpTo rnd st (Suc m) =
           (scatterValidUpTo rnd st m \<and> snd (scatterLoop rnd 0 ?sm))"
    unfolding scatterValidUpTo_def by (auto simp: less_Suc_eq)
  have d1: "d \<le> 1" by (simp add: d_def)
  have "(k + d = Suc m) = (k = m \<and> d = 1)" using k(1) d1 by auto
  also have "\<dots> = scatterValidUpTo rnd st (Suc m)"
    using k(3) v by (auto simp: d_def)
  finally have "(k + d = Suc m) = scatterValidUpTo rnd st (Suc m)" .
  moreover have "k + d \<le> Suc m" using k(1) d1 by simp
  ultimately show ?case using g f by metis
qed

lemma growsD:
  assumes "grows P k st st'"
  obtains new where "out st' = out st @ new" "length new = k"
    "\<And>j. j < k \<Longrightarrow> P j (new ! j)" "\<And>j. j < k \<Longrightarrow> gid (new ! j) = idCounter st + int j"
    "idCounter st' = idCounter st + int k"
  using assms unfolding grows_def by blast

lemma fixedPlacement_shape:
  "\<exists>t h p. out (fixedPlacement rnd) = t @ h @ p \<and> idCounter (fixedPlacement rnd) = int (length (t @ h @ p)) \<and>
     length t = 12 \<and> (\<forall>j<12. onTreeSurface j (t ! j) \<and> gid (t ! j) = int j) \<and>
     4 \<le> length h \<and> length h \<le> 8 \<and>
     (\<forall>j<length h. inHouse (h ! j) \<and> gid (h ! j) = int (12 + j)) \<and>
     (\<forall>v. (\<forall>n. \<lfloor>rv rnd n * 2\<rfloor> = v) \<longrightarrow> length h = 4 * nat (1 + v)) \<and>
     length p = 4 \<and> (\<forall>j<4. onPond (p ! j) \<and> gid (p ! j) = int (12 + length h + j))"
proof -
  define s0 :: GiftGen where "s0 = \<lparr>out = [], idCounter = 0, calls = 0\<rparr>"
  define s1 where "s1 = placeOnTree rnd s0"
  define s2 where "s2 = placeInHouses rnd s1"
  define s3 where "s3 = placeOnPond rnd s2"
  have fp: "fixedPlacement rnd = s3"
    by (simp add: fixedPlacement_def s0_def s1_def s2_def s3_def)
  have "grows onTreeSurface 12 s0 s1" unfolding s1_def by (rule placeOnTree_grows)
  then obtain t where t: "out s1 = out s0 @ t" "length t = 12"
    "\<And>j. j < 12 \<Longrightarrow> onTreeSurface j (t ! j)"
    "\<And>j. j < 12 \<Longrightarrow> gid (t ! j) = idCounter s0 + int j"
    "idCounter s1 = idCounter s0 + int 12"
    by (rule growsD) blast
  obtain b where b: "4 \<le> b" "b \<le> 8" "grows (\<lambda>_. inHouse) b s1 s2"
    "\<forall>v. (\<forall>n. \<lfloor>rv rnd n * 2\<rfloor> = v) \<longrightarrow> b = 4 * nat (1 + v)"
    using placeInHouses_grows[of s1 rnd] unfolding s2_def by blast
  from b(3) obtain h where h: "out s2 = out s1 @ h" "length h = b"
    "\<And>j. j < b \<Longrightarrow> inHouse (h ! j)"
    "\<And>j. j < b \<Longrightarrow> gid (h ! j) = idCounter s1 + int j"
    "idCounter s2 = idCounter s1 + int b"
    by (rule growsD) blast
  have "grows (\<lambda>_. onPond) 4 s2 s3" unfolding s3_def by (rule placeOnPond_grows)
  then obtain p where p: "out s3 = out s2 @ p" "length p = 4"
    "\<And>j. j < 4 \<Longrightarrow> onPond (p ! j)"
    "\<And>j. j < 4 \<Longrightarrow> gid (p ! j) = idCounter s2 + int j"
    "idCounter s3 = idCounter s2 + int 4"
    by (rule growsD) blast
  have o: "out s3 = t @ h @ p" using t(1) h(1) p(1) by (simp add: s0_def)
  have i1: "idCounter s1 = 12" using t(5) by (simp add: s0_def)
  have i2: "idCounter s2 = int (12 + length h)" using h(5) i1 h(2) by simp
  have i3: "idCounter s3 = int (length (t @ h @ p))" using p(5) i2 t(2) p(2) by simp
  have "\<forall>j<12. onTreeSurface j (t ! j) \<and> gid (t ! j) = int j"
    using t(3,4) by (simp add: s0_def)
  moreover have "\<forall>j<length h. inHouse (h ! j) \<and> gid (h ! j) = int (12 + j)"
    using h(3,4) h(2) i1 by simp
  moreover have "\<forall>j<4. onPond (p ! j) \<and> gid (p ! j) = int (12 + length h + j)"
    using p(3,4) i2 by simp
  ultimately show ?thesis
    using o i3 t(2) h(2) p(2) b(1,2,4) fp by (intro exI[of _ t] exI[of _ h] exI[of _ p]) simp
qed

lemma generateGiftsState_shape:
  "\<exists>t h p sc. out (generateGiftsState rnd) = t @ h @ p @ sc \<and>
     length t = 12 \<and> (\<forall>j<12. onTreeSurface j (t ! j) \<and> gid (t ! j) = int j) \<and>
     4 \<le> length h \<and> length h \<le> 8 \<and>
     (\<forall>j<length h. inHouse (h ! j) \<and> gid (h ! j) = int (12 + j)) \<and>
     (\<forall>v. (\<forall>n. \<lfloor>rv rnd n * 2\<rfloor> = v) \<longrightarrow> length h = 4 * nat (1 + v)) \<and>
     length p = 4 \<and> (\<forall>j<4. onPond (p ! j) \<and> gid (p ! j) = int (12 + length h + j)) \<and>
     length sc \<le> 9 - length h \<and>
     (\<forall>j<length sc. scattered (sc ! j) \<and> gid (sc ! j) = int (16 + length h + j)) \<and>
     ((length sc = 9 - length h) = scatterAllValid rnd)"
proof -
  obtain t h p where f: "out (fixedPlacement rnd) = t @ h @ p"
    "idCounter (fixedPlacement rnd) = int (length (t @ h @ p))"
    "length t = 12" "\<forall>j<12. onTreeSurface j (t ! j) \<and> gid (t ! j) = int j"
    "4 \<le> length h" "length h \<le> 8"
    "\<forall>j<length h. inHouse (h ! j) \<and> gid (h ! j) = int (12 + j)"
    "\<forall>v. (\<forall>n. \<lfloor>rv rnd n * 2\<rfloor> = v) \<longrightarrow> length h = 4 * nat (1 + v)"
    "length p = 4" "\<forall>j<4. onPond (p ! j) \<and> gid (p ! j) = int (12 + length h + j)"
    using fixedPlacement_shape[of rnd] by blast
  define m where "m = nat (max 0 (targetInitial - int (length (out (fixedPlacement rnd)))))"
  have m: "m = 9 - length h" using f(1,3,6,9) by (simp add: m_def targetInitial_def)
  have g: "generateGiftsState rnd = foldl (scatterStep rnd) (fixedPlacement rnd) [0..<m]"
    by (simp add: generateGiftsState_def fixedPlacement_def scatter_def Let_def m_def)
  obtain k where k: "k \<le> m"
    "grows (\<lambda>_. scattered) k (fixedPlacement rnd) (foldl (scatterStep rnd) (fixedPlacement rnd) [0..<m])"
    "(k = m) = scatterValidUpTo rnd (fixedPlacement rnd) m"
    using scatter_fold_grows[of m "fixedPlacement rnd" rnd] by blast
  from k(2) obtain sc where sc: "out (generateGiftsState rnd) = out (fixedPlacement rnd) @ sc"
    "length sc = k" "\<And>j. j < k \<Longrightarrow> scattered (sc ! j)"
    "\<And>j. j < k \<Longrightarrow> gid (sc ! j) = idCounter (fixedPlacement rnd) + int j"
    unfolding g by (rule growsD) blast
  have o: "out (generateGiftsState rnd) = t @ h @ p @ sc" using sc(1) f(1) by simp
  have v: "(length sc = 9 - length h) = scatterAllValid rnd"
    using k(3) sc(2) m unfolding scatterAllValid_def m_def by simp
  have s: "\<forall>j<length sc. scattered (sc ! j) \<and> gid (sc ! j) = int (16 + length h + j)"
    using sc(2,3,4) f(2,3,9) by simp
  have l: "length sc \<le> 9 - length h" using k(1) sc(2) m by simp
  show ?thesis
    using o f(3-10) l s v
    by (intro exI[of _ t] exI[of _ h] exI[of _ p] exI[of _ sc]) simp
qed

lemma rv_const: "0 \<le> r \<Longrightarrow> r < 1 \<Longrightarrow> rv (constRandom r) n = r"
  by (simp add: rv_def constRandom_def Abs_rand01_inverse)

lemma radiusAtHeight_currentRadius: "radiusAtHeight h = currentRadius (h * 100)"
  by (simp add: radiusAtHeight_def currentRadius_def treeHeight_def maxRadius_def
      worldTreeHeight_def worldMaxRadius_def Let_def)

lemma currentRadius_formula: "currentRadius y = 32 * (1 - y / 100) + sin (y * 0.5) * 1.5"
  by (simp add: currentRadius_def worldTreeHeight_def worldMaxRadius_def Let_def)

lemma placement_radius_pos:
  assumes "h \<le> 0.85"
  shows "0 < currentRadius (h * 100) + 1.5"
proof -
  have "-1 \<le> sin (h * 100 * 0.5)" by (rule sin_ge_minus_one)
  then have "-1.5 \<le> sin (h * 100 * 0.5) * 1.5" by simp
  moreover have "32 * (1 - h * 100 / 100) \<ge> 4.8" using assms by simp
  ultimately show ?thesis unfolding currentRadius_formula by linarith
qed

lemma polar_norm: "0 \<le> r \<Longrightarrow> sqrt ((cos a * r)\<^sup>2 + (sin a * r)\<^sup>2) = r"
proof -
  assume r: "0 \<le> r"
  have "(cos a * r)\<^sup>2 + (sin a * r)\<^sup>2 = r\<^sup>2 * ((sin a)\<^sup>2 + (cos a)\<^sup>2)" by algebra
  also have "\<dots> = r\<^sup>2" by simp
  finally show ?thesis using r by simp
qed

lemma tree_gift_nth:
  assumes "i < 12"
  shows "onTreeSurface i (generateGifts count rnd ! i)"
proof -
  obtain t h p sc where s: "out (generateGiftsState rnd) = t @ h @ p @ sc" "length t = 12"
    "\<forall>j<12. onTreeSurface j (t ! j) \<and> gid (t ! j) = int j"
    using generateGiftsState_shape[of rnd] by blast
  have "generateGifts count rnd ! i = t ! i"
    using s(1,2) assms by (simp add: generateGifts_def nth_append)
  with s(3) assms show ?thesis by simp
qed

text \<open>
  Claim C9. The radius used for tree-surface gifts is the canopy radius of the world
  generator at the same voxel height, \<open>32 * (1 - y / 100) + sin (y * 0.5) * 1.5\<close>. Each
  of the twelve tree gifts has a height fraction between 0.15 and 0.85, lies on the
  circle of that radius plus 1.5 around the trunk axis (scaled by the voxel size 0.25),
  and is an ornament at even positions and a star at odd positions.
\<close>

theorem tree_gift_placement:
  "(\<forall>h. radiusAtHeight h = currentRadius (h * 100)) \<and>
   (\<forall>y. currentRadius y = 32 * (1 - y / 100) + sin (y * 0.5) * 1.5) \<and>
   (\<forall>i<12.
      gtype (generateGifts count rnd ! i) = (if even i then ornament else star) \<and>
      (\<exists>h a. 0.15 \<le> h \<and> h \<le> 0.85 \<and>
         gposition (generateGifts count rnd ! i) =
           (cos a * (currentRadius (h * 100) + 1.5) * 0.25,
            h * 100 * 0.25,
            sin a * (currentRadius (h * 100) + 1.5) * 0.25) \<and>
         sqrt ((cos a * (currentRadius (h * 100) + 1.5))\<^sup>2 +
               (sin a * (currentRadius (h * 100) + 1.5))\<^sup>2) = currentRadius (h * 100) + 1.5))"
proof (intro conjI allI impI)
  fix h show "radiusAtHeight h = currentRadius (h * 100)" by (rule radiusAtHeight_currentRadius)
next
  fix y show "currentRadius y = 32 * (1 - y / 100) + sin (y * 0.5) * 1.5"
    by (rule currentRadius_formula)
next
  fix i :: nat assume i: "i < 12"
  from tree_gift_nth[OF i, of count rnd]
  show "gtype (generateGifts count rnd ! i) = (if even i then ornament else star)"
    by (auto simp: onTreeSurface_def even_iff_mod_2_eq_zero)
next
  fix i :: nat assume i: "i < 12"
  from tree_gift_nth[OF i, of count rnd]
  obtain h a where ha: "0.15 \<le> h" "h \<le> 0.85"
    "gposition (generateGifts count rnd ! i) =
       (cos a * (radiusAtHeight h + 1.5) * VOXEL_SIZE, h * treeHeight * VOXEL_SIZE,
        sin a * (radiusAtHeight h + 1.5) * VOXEL_SIZE)"
    unfolding onTreeSurface_def by blast
  have pos: "0 \<le> currentRadius (h * 100) + 1.5"
    using placement_radius_pos[OF ha(2)] by simp
  have "gposition (generateGifts count rnd ! i) =
           (cos a * (currentRadius (h * 100) + 1.5) * 0.25,
            h * 100 * 0.25,
            sin a * (currentRadius (h * 100) + 1.5) * 0.25)"
    using ha(3) by (simp add: radiusAtHeight_currentRadius VOXEL_SIZE_def treeHeight_def)
  moreover have "sqrt ((cos a * (currentRadius (h * 100) + 1.5))\<^sup>2 +
               (sin a * (currentRadius (h * 100) + 1.5))\<^sup>2) = currentRadius (h * 100) + 1.5"
    using pos by (rule polar_norm)
  ultimately show "\<exists>h a. 0.15 \<le> h \<and> h \<le> 0.85 \<and>
         gposition (generateGifts count rnd ! i) =
           (cos a * (currentRadius (h * 100) + 1.5) * 0.25,
            h * 100 * 0.25,
            sin a * (currentRadius (h * 100) + 1.5) * 0.25) \<and>
         sqrt ((cos a * (currentRadius (h * 100) + 1.5))\<^sup>2 +
               (sin a * (currentRadius (h * 100) + 1.5))\<^sup>2) = currentRadius (h * 100) + 1.5"
    using ha(1,2) by blast
qed

theorem tree_gift_placement_witness:
  "gtype (generateGifts 30 (constRandom 0) ! 0) = ornament \<and>
   gtype (generateGifts 30 (constRandom 0) ! 1) = star \<and>
   gtype (generateGifts 30 (constRandom 0) ! 11) = star \<and>
   radiusAtHeight (1/2) = 16 + sin 25 * 1.5"
  using tree_gift_placement[of 30 "constRandom 0"] by simp

lemma scatterValidUpTo_never_exhausted:
  "\<forall>n. \<not> exhausted rnd n \<Longrightarrow> scatterValidUpTo rnd st m"
  by (simp add: scatterValidUpTo_def scatterLoop_valid0)

lemma scatterValidUpTo_always_exhausted:
  "\<forall>n. exhausted rnd n \<Longrightarrow> 0 < m \<Longrightarrow> \<not> scatterValidUpTo rnd st m"
  unfolding scatterValidUpTo_def by (auto simp: scatterLoop_valid0 intro!: exI[of _ 0])

lemma generateGifts_length:
  "20 \<le> length (generateGifts count rnd) \<and> length (generateGifts count rnd) \<le> 25 \<and>
   ((length (generateGifts count rnd) = 25) = scatterAllValid rnd)"
proof -
  obtain t h p sc where s: "out (generateGiftsState rnd) = t @ h @ p @ sc" "length t = 12"
    "4 \<le> length h" "length h \<le> 8" "length p = 4" "length sc \<le> 9 - length h"
    "(length sc = 9 - length h) = scatterAllValid rnd"
    using generateGiftsState_shape[of rnd] by blast
  have l: "length (generateGifts count rnd) = 16 + length h + length sc"
    using s(1,2,5) by (simp add: generateGifts_def)
  have "(16 + length h + length sc = 25) = (length sc = 9 - length h)" using s(4) by auto
  with l s show ?thesis by auto
qed

lemma generateGifts_ids:
  "map gid (generateGifts count rnd) = map int [0..<length (generateGifts count rnd)]"
proof (rule nth_equalityI)
  show "length (map gid (generateGifts count rnd)) =
        length (map int [0..<length (generateGifts count rnd)])" by simp
next
  fix i assume "i < length (map gid (generateGifts count rnd))"
  then have i: "i < length (generateGifts count rnd)" by simp
  obtain t h p sc where s: "out (generateGiftsState rnd) = t @ h @ p @ sc" "length t = 12"
    "\<forall>j<12. onTreeSurface j (t ! j) \<and> gid (t ! j) = int j"
    "\<forall>j<length h. inHouse (h ! j) \<and> gid (h ! j) = int (12 + j)"
    "length p = 4" "\<forall>j<4. onPond (p ! j) \<and> gid (p ! j) = int (12 + length h + j)"
    "\<forall>j<length sc. scattered (sc ! j) \<and> gid (sc ! j) = int (16 + length h + j)"
    using generateGiftsState_shape[of rnd] by blast
  have g: "generateGifts count rnd = t @ h @ p @ sc" using s(1) by (simp add: generateGifts_def)
  have "gid ((t @ h @ p @ sc) ! i) = int i"
  proof -
    consider "i < 12" | "12 \<le> i" "i < 12 + length h"
      | "12 + length h \<le> i" "i < 16 + length h" | "16 + length h \<le> i"
      by linarith
    then show ?thesis
    proof cases
      case 1
      then show ?thesis using s(2,3) by (simp add: nth_append)
    next
      case 2
      then have a: "i - 12 < length h" by simp
      with s(4) have "gid (h ! (i - 12)) = int (12 + (i - 12))" by blast
      with 2 a show ?thesis using s(2) by (simp add: nth_append)
    next
      case 3
      then have a: "i - 12 - length h < 4" "\<not> i - 12 < length h" by simp_all
      from a(1) s(6) have "gid (p ! (i - 12 - length h)) = int (12 + length h + (i - 12 - length h))"
        by blast
      with 3 a show ?thesis using s(2,5) by (simp add: nth_append)
    next
      case 4
      then have a: "i - 12 - length h - 4 < length sc" "\<not> i - 12 < length h"
        "\<not> i - 12 - length h < 4" using i g s(2,5) by simp_all
      from a(1) s(7) have "gid (sc ! (i - 12 - length h - 4)) =
                      int (16 + length h + (i - 12 - length h - 4))" by blast
      with 4 a show ?thesis using s(2,5) by (simp add: nth_append)
    qed
  qed
  then have "gid (generateGifts count rnd ! i) = int i" by (simp only: g)
  with i show "map gid (generateGifts count rnd) ! i =
               map int [0..<length (generateGifts count rnd)] ! i"
    by (simp only: nth_map length_upt nth_upt minus_nat.diff_0 add_0)
qed

text \<open>
  Claim C10. The result does not depend on the \<open>count\<close> argument. The list holds at
  most 25 gifts, exactly 25 precisely when every scatter iteration ends with a valid
  sample (in particular when no run of 50 samples is rejected), the ids are
  \<open>0, 1, 2, \<dots>\<close> in order, and \<open>generateGifts(30)\<close> never returns 30 gifts.
\<close>

theorem generateGifts_ignores_count:
  "generateGifts count rnd = generateGifts count' rnd \<and>
   length (generateGifts count rnd) \<le> 25 \<and>
   ((length (generateGifts count rnd) = 25) = scatterAllValid rnd) \<and>
   ((\<forall>n. \<not> exhausted rnd n) \<longrightarrow> length (generateGifts count rnd) = 25) \<and>
   map gid (generateGifts count rnd) = map int [0..<length (generateGifts count rnd)] \<and>
   length (generateGifts 30 rnd) \<noteq> 30"
proof (intro conjI impI)
  show "generateGifts count rnd = generateGifts count' rnd" by (simp add: generateGifts_def)
  show "length (generateGifts count rnd) \<le> 25" using generateGifts_length[of count rnd] by simp
  show "(length (generateGifts count rnd) = 25) = scatterAllValid rnd"
    using generateGifts_length[of count rnd] by simp
  show "map gid (generateGifts count rnd) = map int [0..<length (generateGifts count rnd)]"
    by (rule generateGifts_ids)
  show "length (generateGifts 30 rnd) \<noteq> 30" using generateGifts_length[of 30 rnd] by simp
next
  assume "\<forall>n. \<not> exhausted rnd n"
  then have "scatterAllValid rnd"
    unfolding scatterAllValid_def by (rule scatterValidUpTo_never_exhausted)
  then show "length (generateGifts count rnd) = 25" using generateGifts_length[of count rnd] by simp
qed

lemma rejected_const_zero: "\<not> rejected (constRandom 0) n"
  by (simp add: rejected_def rv_const sqrt_less_pos)

lemma rejected_const_half: "rejected (constRandom (1/2)) n"
  by (simp add: rejected_def rv_const)

theorem generateGifts_ignores_count_witness:
  "length (generateGifts 30 (constRandom 0)) = 25 \<and>
   length (generateGifts 5 (constRandom 0)) = 25 \<and>
   map gid (generateGifts 30 (constRandom 0)) = map int [0..<25]"
proof -
  have n: "\<forall>n. \<not> exhausted (constRandom 0) n"
    by (auto simp: exhausted_def rejected_const_zero intro!: exI[of _ 0])
  show ?thesis
    using generateGifts_ignores_count[of 30 "constRandom 0" 5] n
      generateGifts_ignores_count[of 5 "constRandom 0" 30]
    by simp
qed

lemma not_scatterAllValid_always_exhausted:
  assumes "\<forall>n. exhausted rnd n"
  shows "\<not> scatterAllValid rnd"
proof -
  obtain t h p where f: "out (fixedPlacement rnd) = t @ h @ p" "length t = 12" "length h \<le> 8"
    "length p = 4"
    using fixedPlacement_shape[of rnd] by blast
  have "0 < nat (max 0 (targetInitial - int (length (out (fixedPlacement rnd)))))"
    using f by (simp add: targetInitial_def)
  with assms show ?thesis
    unfolding scatterAllValid_def by (rule scatterValidUpTo_always_exhausted)
qed

text \<open>
  Claim C6, amended. The scatter strategy fills the remainder up to the fixed internal
  target of 25, not up to the \<open>count\<close> argument: the result is 12 tree gifts (ornaments
  and stars), then 4 to 8 stockings, then 4 candy canes, then at most
  \<open>25 - (12 + buildings + 4)\<close> scatter gifts, that many exactly when every scatter
  iteration finds a valid sample; the total never exceeds 25. Every scatter gift sits at
  a sampled point whose distance from the origin is at least 6 logical units, lifted
  0.5 above the terrain height at that point.
\<close>

theorem scatter_fills_to_internal_target:
  "\<exists>t h p sc.
     generateGifts count rnd = t @ h @ p @ sc \<and>
     length t = 12 \<and> 4 \<le> length h \<and> length h \<le> 8 \<and> length p = 4 \<and>
     (\<forall>g\<in>set t. gtype g = ornament \<or> gtype g = star) \<and>
     (\<forall>g\<in>set h. gtype g = stocking) \<and>
     (\<forall>g\<in>set p. gtype g = cane) \<and>
     length sc \<le> 25 - (12 + length h + 4) \<and>
     ((length sc = 25 - (12 + length h + 4)) = scatterAllValid rnd) \<and>
     length (generateGifts count rnd) \<le> 25 \<and>
     (\<forall>g\<in>set sc. \<exists>xVoxel zVoxel.
        gposition g = (xVoxel * 0.25, real_of_int (getTerrainVoxelY xVoxel zVoxel) * 0.25 + 0.5,
                       zVoxel * 0.25) \<and>
        6 \<le> sqrt (xVoxel\<^sup>2 + zVoxel\<^sup>2))"
proof -
  obtain t h p sc where s: "out (generateGiftsState rnd) = t @ h @ p @ sc" "length t = 12"
    "\<forall>j<12. onTreeSurface j (t ! j) \<and> gid (t ! j) = int j"
    "4 \<le> length h" "length h \<le> 8"
    "\<forall>j<length h. inHouse (h ! j) \<and> gid (h ! j) = int (12 + j)"
    "length p = 4" "\<forall>j<4. onPond (p ! j) \<and> gid (p ! j) = int (12 + length h + j)"
    "length sc \<le> 9 - length h"
    "\<forall>j<length sc. scattered (sc ! j) \<and> gid (sc ! j) = int (16 + length h + j)"
    "(length sc = 9 - length h) = scatterAllValid rnd"
    using generateGiftsState_shape[of rnd] by blast
  have g: "generateGifts count rnd = t @ h @ p @ sc" using s(1) by (simp add: generateGifts_def)
  have tt: "\<forall>g\<in>set t. gtype g = ornament \<or> gtype g = star"
  proof
    fix g assume "g \<in> set t"
    then obtain j where "j < 12" "g = t ! j" using s(2) by (auto simp: in_set_conv_nth)
    with s(3) have "onTreeSurface j g" by simp
    then show "gtype g = ornament \<or> gtype g = star"
      by (cases "j mod 2 = 0") (simp_all add: onTreeSurface_def)
  qed
  have th: "\<forall>g\<in>set h. gtype g = stocking"
    using s(6) by (auto simp: in_set_conv_nth inHouse_def)
  have tp: "\<forall>g\<in>set p. gtype g = cane"
    using s(7,8) by (auto simp: in_set_conv_nth onPond_def)
  have ts: "\<forall>g\<in>set sc. \<exists>xVoxel zVoxel.
        gposition g = (xVoxel * 0.25, real_of_int (getTerrainVoxelY xVoxel zVoxel) * 0.25 + 0.5,
                       zVoxel * 0.25) \<and>
        6 \<le> sqrt (xVoxel\<^sup>2 + zVoxel\<^sup>2)"
  proof
    fix g assume "g \<in> set sc"
    then obtain j where "j < length sc" "g = sc ! j" by (auto simp: in_set_conv_nth)
    with s(10) have "scattered g" by simp
    then show "\<exists>xVoxel zVoxel.
        gposition g = (xVoxel * 0.25, real_of_int (getTerrainVoxelY xVoxel zVoxel) * 0.25 + 0.5,
                       zVoxel * 0.25) \<and>
        6 \<le> sqrt (xVoxel\<^sup>2 + zVoxel\<^sup>2)"
      unfolding scattered_def VOXEL_SIZE_def by blast
  qed
  have n: "25 - (12 + length h + 4) = 9 - length h" by simp
  have l: "length (generateGifts count rnd) \<le> 25" using generateGifts_length[of count rnd] by simp
  show ?thesis
    using g s(2,4,5,7,9,11) tt th tp ts l unfolding n
    by (intro exI[of _ t] exI[of _ h] exI[of _ p] exI[of _ sc]) simp
qed

theorem scatter_fills_to_internal_target_witness:
  "20 \<le> length (generateGifts 30 (constRandom 0)) \<and>
   length (generateGifts 30 (constRandom 0)) \<le> 25"
proof -
  obtain t h p sc where "generateGifts 30 (constRandom 0) = t @ h @ p @ sc"
    "length t = 12" "4 \<le> length h" "length p = 4"
    "length (generateGifts 30 (constRandom 0)) \<le> 25"
    using scatter_fills_to_internal_target[of 30 "constRandom 0"] by blast
  then show ?thesis by simp
qed

text \<open>
  Claim C6 as stated fails: with \<open>Math.random()\<close> constantly 0 the generator called with
  30 returns 25 gifts (the scatter stage stops at 25, not at 30), and with
  \<open>Math.random()\<close> constantly 0.5 every scatter sample is the origin, all 50 retries are
  rejected, and the generator returns 24 gifts, fewer than 25.
\<close>

theorem scatter_target_counterexample:
  "length (generateGifts 30 (constRandom 0)) = 25 \<and>
   length (generateGifts 30 (constRandom (1/2))) = 24"
proof -
  have n: "\<forall>n. \<not> exhausted (constRandom 0) n"
    by (auto simp: exhausted_def rejected_const_zero intro!: exI[of _ 0])
  then have "scatterAllValid (constRandom 0)"
    unfolding scatterAllValid_def by (rule scatterValidUpTo_never_exhausted)
  then have a: "length (generateGifts 30 (constRandom 0)) = 25"
    using generateGifts_length[of 30 "constRandom 0"] by simp
  have "\<forall>n. exhausted (constRandom (1/2)) n"
    by (simp add: exhausted_def rejected_const_half)
  then have v: "\<not> scatterAllValid (constRandom (1/2))"
    by (rule not_scatterAllValid_always_exhausted)
  obtain t h p sc where s: "out (generateGiftsState (constRandom (1/2))) = t @ h @ p @ sc"
    "length t = 12"
    "\<forall>v. (\<forall>n. \<lfloor>rv (constRandom (1/2)) n * 2\<rfloor> = v) \<longrightarrow> length h = 4 * nat (1 + v)"
    "length p = 4" "length sc \<le> 9 - length h"
    "(length sc = 9 - length h) = scatterAllValid (constRandom (1/2))"
    using generateGiftsState_shape[of "constRandom (1/2)"] by blast
  have "length h = 4 * nat (1 + 1)" using s(3) by (simp add: rv_const)
  then have h: "length h = 8" by simp
  with s(5,6) v have "length sc = 0" by (cases "length sc") simp_all
  with h s(1,2,4) have b: "length (generateGifts 30 (constRandom (1/2))) = 24"
    by (simp add: generateGifts_def)
  from a b show ?thesis by simp
qed


section \<open>Verification: enemy placement\<close>

lemma snowmanStep_result:
  "\<exists>x z n'. snowmanStep rnd (sms, n) i =
      (sms @ [\<lparr>sid = i,
                sposition = (x * VOXEL_SIZE, real_of_int (getTerrainVoxelY x z) * VOXEL_SIZE,
                             z * VOXEL_SIZE),
                srotation = rv rnd (n' - 1) * pi * 2, hp = 3, isDead = False\<rparr>], n') \<and>
      (i = 0 \<longrightarrow> x = 15 \<and> z = 15) \<and> (i = 1 \<longrightarrow> x = -20 \<and> z = -10)"
proof -
  obtain xv zv n1 where c:
    "(if i = 0 then (Some 15, Some 15, n)
      else if i = 1 then (Some (-20), Some (-10), n)
      else snowmanLoop rnd 0 (None, None, n)) = (xv, zv, n1)"
    by (metis prod_cases3)
  have e: "snowmanStep rnd (sms, n) i =
      (sms @ [\<lparr>sid = i,
                sposition = (orTen xv * VOXEL_SIZE,
                             real_of_int (getTerrainVoxelY (orTen xv) (orTen zv)) * VOXEL_SIZE,
                             orTen zv * VOXEL_SIZE),
                srotation = rv rnd n1 * pi * 2, hp = 3, isDead = False\<rparr>], n1 + 1)"
    unfolding snowmanStep_def by (simp only: prod.case c Let_def)
  have f: "i = 0 \<longrightarrow> orTen xv = 15 \<and> orTen zv = 15"
    using c by (auto simp: orTen_def)
  have g: "i = 1 \<longrightarrow> orTen xv = -20 \<and> orTen zv = -10"
    using c by (auto simp: orTen_def)
  show ?thesis
    using e f g by (intro exI[of _ "orTen xv"] exI[of _ "orTen zv"] exI[of _ "n1 + 1"]) simp
qed

lemma snowmen_foldl:
  "\<exists>sms n'. foldl (snowmanStep rnd) ([], 0) (map int [0..<k]) = (sms, n') \<and>
            length sms = k \<and> (\<forall>i<k. placedAt i (sms ! i))"
proof (induction k)
  case 0
  show ?case by simp
next
  case (Suc k)
  then obtain sms n' where ih: "foldl (snowmanStep rnd) ([], 0) (map int [0..<k]) = (sms, n')"
    "length sms = k" "\<forall>i<k. placedAt i (sms ! i)" by blast
  obtain x z n'' where s: "snowmanStep rnd (sms, n') (int k) =
      (sms @ [\<lparr>sid = int k,
                sposition = (x * VOXEL_SIZE, real_of_int (getTerrainVoxelY x z) * VOXEL_SIZE,
                             z * VOXEL_SIZE),
                srotation = rv rnd (n'' - 1) * pi * 2, hp = 3, isDead = False\<rparr>], n'')"
    "int k = 0 \<longrightarrow> x = 15 \<and> z = 15" "int k = 1 \<longrightarrow> x = -20 \<and> z = -10"
    using snowmanStep_result[of rnd sms n' "int k"] by blast
  let ?sm = "\<lparr>sid = int k,
                sposition = (x * VOXEL_SIZE, real_of_int (getTerrainVoxelY x z) * VOXEL_SIZE,
                             z * VOXEL_SIZE),
                srotation = rv rnd (n'' - 1) * pi * 2, hp = 3, isDead = False\<rparr>"
  have p: "placedAt k ?sm" unfolding placedAt_def using s(2,3) by auto
  have "foldl (snowmanStep rnd) ([], 0) (map int [0..<Suc k]) = (sms @ [?sm], n'')"
    using ih(1) s(1) by simp
  moreover have "length (sms @ [?sm]) = Suc k" using ih(2) by simp
  moreover have "\<forall>i<Suc k. placedAt i ((sms @ [?sm]) ! i)"
    using ih(2,3) p by (auto simp: nth_append less_Suc_eq)
  ultimately show ?case by blast
qed

lemma upto_as_upt: "[0..int k - 1] = map int [0..<k]"
proof (induction k)
  case 0
  show ?case by simp
next
  case (Suc k)
  have "[0..int (Suc k) - 1] = [0..int k - 1] @ [int k]"
    using upto_rec2[of 0 "int k"] by simp
  with Suc show ?case by simp
qed

lemma generateSnowmen_placed:
  "length (generateSnowmen (int k) rnd) = k \<and>
   (\<forall>i<k. placedAt i (generateSnowmen (int k) rnd ! i))"
  using snowmen_foldl[of rnd k] by (auto simp: generateSnowmen_def upto_as_upt)

declare snowmanLoop.simps [simp del]

lemma snowmanLoop_all_rejected:
  assumes c: "\<And>k. rv rnd k = r"
    and rej: "sqrt (((r - 0.5) * 2 * maxRange)\<^sup>2 + ((r - 0.5) * 2 * maxRange)\<^sup>2) < 8"
    and a: "a \<le> 20"
  shows "snowmanLoop rnd a (Some ((r - 0.5) * 2 * maxRange), Some ((r - 0.5) * 2 * maxRange), n) =
           (Some ((r - 0.5) * 2 * maxRange), Some ((r - 0.5) * 2 * maxRange), n + 2 * (20 - a))"
    and "a < 20 \<Longrightarrow> snowmanLoop rnd a (None, None, n) =
           (Some ((r - 0.5) * 2 * maxRange), Some ((r - 0.5) * 2 * maxRange), n + 2 * (20 - a))"
proof -
  define s where "s = (r - 0.5) * 2 * maxRange"
  have rej': "sqrt (s\<^sup>2 + s\<^sup>2) < 8" using rej by (simp only: s_def)
  have stop: "\<And>x z m. snowmanLoop rnd 20 (x, z, m) = (x, z, m)"
    by (subst snowmanLoop.simps) simp
  have step: "\<And>b x z m. b < 20 \<Longrightarrow>
        snowmanLoop rnd b (x, z, m) = snowmanLoop rnd (b + 1) (Some s, Some s, m + 2)"
    by (subst snowmanLoop.simps) (simp only: Let_def c s_def[symmetric] rej' if_True)
  have main: "\<And>b m. b \<le> 20 \<Longrightarrow>
        snowmanLoop rnd b (Some s, Some s, m) = (Some s, Some s, m + 2 * (20 - b))"
  proof -
    fix b :: nat and m :: nat
    assume "b \<le> 20"
    then show "snowmanLoop rnd b (Some s, Some s, m) = (Some s, Some s, m + 2 * (20 - b))"
    proof (induction "20 - b" arbitrary: b m)
      case 0
      then have "b = 20" by simp
      then show ?case by (simp add: stop)
    next
      case (Suc k)
      then have lt: "b < 20" and k: "k = 20 - (b + 1)" and le: "b + 1 \<le> 20" by simp_all
      have "snowmanLoop rnd b (Some s, Some s, m) = snowmanLoop rnd (b + 1) (Some s, Some s, m + 2)"
        using lt by (rule step)
      also have "\<dots> = (Some s, Some s, m + 2 + 2 * (20 - (b + 1)))"
        by (rule Suc(1)[OF k le])
      also have "m + 2 + 2 * (20 - (b + 1)) = m + 2 * (20 - b)" using lt by simp
      finally show ?case .
    qed
  qed
  show "snowmanLoop rnd a (Some ((r - 0.5) * 2 * maxRange), Some ((r - 0.5) * 2 * maxRange), n) =
           (Some ((r - 0.5) * 2 * maxRange), Some ((r - 0.5) * 2 * maxRange), n + 2 * (20 - a))"
    using main[OF a, of n] by (simp only: s_def)
  show "snowmanLoop rnd a (None, None, n) =
           (Some ((r - 0.5) * 2 * maxRange), Some ((r - 0.5) * 2 * maxRange), n + 2 * (20 - a))"
    if lt: "a < 20"
  proof -
    have "snowmanLoop rnd a (None, None, n) = snowmanLoop rnd (a + 1) (Some s, Some s, n + 2)"
      using lt by (rule step)
    also have "\<dots> = (Some s, Some s, n + 2 + 2 * (20 - (a + 1)))"
      using lt by (intro main) simp
    also have "n + 2 + 2 * (20 - (a + 1)) = n + 2 * (20 - a)" using lt by simp
    finally show ?thesis by (simp only: s_def)
  qed
qed

lemma terrain_near_hub: "getTerrainVoxelY (35/16) (35/16) = 0"
  by (simp add: getTerrainVoxelY_def Let_def sqrt_less_pos power2_eq_square)

text \<open>
  Claim C7, evaluated with \<open>Math.random()\<close> constantly \<open>33/64\<close>: every sample of the
  third snowman is \<open>(35/16, 35/16)\<close>, within 8 units of the origin, so all 20 attempts
  are rejected. The variables keep the last rejected sample, the test \<open>!xVoxel\<close> does
  not fire, and the snowman is placed at that sample instead of the fallback
  coordinate \<open>(10, 10)\<close>.
\<close>

theorem snowman_keeps_rejected_sample:
  "generateSnowmen 3 (constRandom (33/64)) ! 2 =
     \<lparr>sid = 2, sposition = (35/64, 0, 35/64), srotation = 33/64 * pi * 2, hp = 3, isDead = False\<rparr> \<and>
   sqrt ((35/16)\<^sup>2 + (35/16)\<^sup>2) < (8::real) \<and>
   snowmanLoop (constRandom (33/64)) 0 (None, None, 2) = (Some (35/16), Some (35/16), 42)"
proof -
  have r: "\<And>n. rv (constRandom (33/64)) n = 33/64" by (simp add: rv_const)
  have rej: "sqrt (((33/64 - 0.5) * 2 * maxRange)\<^sup>2 + ((33/64 - 0.5) * 2 * maxRange)\<^sup>2) < 8"
    by (simp add: maxRange_def sqrt_less_pos power2_eq_square)
  have l: "\<And>n. snowmanLoop (constRandom (33/64)) 0 (None, None, n) =
             (Some (35/16), Some (35/16), n + 40)"
    using snowmanLoop_all_rejected(2)[OF r rej, of 0] by (simp add: maxRange_def)
  have u: "[0..(2::int)] = [0, 1, 2]" by (simp add: upto.simps)
  have "generateSnowmen 3 (constRandom (33/64)) ! 2 =
     \<lparr>sid = 2, sposition = (35/64, 0, 35/64), srotation = 33/64 * pi * 2, hp = 3, isDead = False\<rparr>"
    by (simp add: generateSnowmen_def u snowmanStep_def l orTen_def terrain_near_hub
        VOXEL_SIZE_def r Let_def)
  moreover have "sqrt ((35/16)\<^sup>2 + (35/16)\<^sup>2) < (8::real)"
    by (simp add: sqrt_less_pos power2_eq_square)
  ultimately show ?thesis using l[of 2] by simp
qed

section \<open>Verification: the world generator\<close>

lemma foldl_inv:
  assumes "P s" "\<And>s a. a \<in> set xs \<Longrightarrow> P s \<Longrightarrow> P (f s a)"
  shows "P (foldl f s xs)"
  using assms by (induction xs arbitrary: s) auto

lemma rangeLt_ge: "v \<in> set (rangeLt a b) \<Longrightarrow> a \<le> v"
  by (auto simp: rangeLt_def)

lemma WInv_mono: "WInv C st \<Longrightarrow> C \<subseteq> C' \<Longrightarrow> WInv C' st"
  unfolding WInv_def by blast

lemma WInv_tick [simp]: "WInv C (tick st) = WInv C st"
  by (simp add: WInv_def tick_def)

lemma WInv_rcalls [simp]: "WInv C (st\<lparr>rcalls := n\<rparr>) = WInv C st"
  by (simp add: WInv_def)

lemma WInv_lampCoords [simp]: "WInv C (st\<lparr>lampCoords := l\<rparr>) = WInv C st"
  by (simp add: WInv_def)

lemma WInv_doors [simp]: "WInv C (st\<lparr>doors := d\<rparr>) = WInv C st"
  by (simp add: WInv_def)

lemma WInv_pathHeightMap [simp]: "WInv C (st\<lparr>pathHeightMap := m\<rparr>) = WInv C st"
  by (simp add: WInv_def)

lemma WInv_markPath [simp]: "WInv C (markPath px pz st) = WInv C st"
  by (simp add: markPath_def)

lemma WInv_emptyGen: "WInv {} emptyGen"
  by (simp add: WInv_def emptyGen_def)

lemma WInv_add:
  assumes "WInv C st"
    and "iceCol (js_round x) (js_round z) \<longrightarrow> 0 \<le> js_round y \<or> js_round y < -6"
  shows "WInv C (add x y z color isGlowing st)"
proof (cases "(js_round x, js_round y, js_round z) \<in> occupied st")
  case True
  then show ?thesis using assms(1) by (simp add: add_def Let_def)
next
  case False
  let ?v = "\<lparr>vx = js_round x, vy = js_round y, vz = js_round z, vcolor = color\<rparr>"
  have new: "coord ?v \<notin> coord ` set (regularVoxels st @ glowingVoxels st)"
    using False assms(1) unfolding WInv_def by (auto simp: coord_def)
  show ?thesis
  proof (cases isGlowing)
    case True
    have "add x y z color isGlowing st =
          st\<lparr>occupied := insert (js_round x, js_round y, js_round z) (occupied st),
             glowingVoxels := glowingVoxels st @ [?v]\<rparr>"
      using False True by (simp add: add_def Let_def)
    then show ?thesis
      using assms new unfolding WInv_def by (auto simp: coord_def)
  next
    case g: False
    have "add x y z color isGlowing st =
          st\<lparr>occupied := insert (js_round x, js_round y, js_round z) (occupied st),
             regularVoxels := regularVoxels st @ [?v]\<rparr>"
      using False g by (simp add: add_def Let_def)
    then show ?thesis
      using assms new unfolding WInv_def by (auto simp: coord_def)
  qed
qed

lemma js_round_nonneg: "- 1 / 2 \<le> y \<Longrightarrow> 0 \<le> js_round y"
  by (simp add: js_round_def)

lemma WInv_add_high [simp]:
  "WInv C st \<Longrightarrow> - 1 / 2 \<le> y \<Longrightarrow> WInv C (add x y z color isGlowing st)"
  by (rule WInv_add) (simp_all add: js_round_nonneg)

lemma WInv_buildLamp: "WInv C st \<Longrightarrow> 0 \<le> y \<Longrightarrow> WInv C (buildLamp x y z st)"
proof -
  assume inv: "WInv C st" and y: "0 \<le> y"
  have pole: "WInv C (foldl (\<lambda>s h. add x (y + real h) z LAMP_POST False s) st [0..<9])"
    by (rule foldl_inv[where P = "WInv C"]) (use inv y in simp_all)
  show ?thesis
    unfolding buildLamp_def Let_def using pole y by simp
qed

lemma WInv_lampStep: "WInv C st \<Longrightarrow> WInv C (lampStep rnd x1 z1 x2 z2 n st i)"
  unfolding lampStep_def Let_def by (rule WInv_buildLamp) simp_all

lemma WInv_pathCells: "WInv C st \<Longrightarrow> WInv C (pathCells cx cz w st)"
  unfolding pathCells_def
  by (rule foldl_inv[where P = "WInv C"], assumption)
     (rule foldl_inv[where P = "WInv C"], simp_all)

lemma WInv_foldl:
  "WInv C s \<Longrightarrow> (\<And>s a. WInv C s \<Longrightarrow> WInv C (f s a)) \<Longrightarrow> WInv C (foldl f s xs)"
  by (rule foldl_inv[where P = "WInv C"])

lemma WInv_createPath: "WInv C st \<Longrightarrow> WInv C (createPath rnd x1 z1 x2 z2 w st)"
  apply (simp only: createPath_def Let_def split: if_split)
  apply (intro conjI impI)
   apply (rule WInv_foldl WInv_pathCells WInv_lampStep | assumption)+
  done

lemma WInv_buildingPaths: "WInv C st \<Longrightarrow> WInv C (buildingPaths rnd st b)"
  unfolding buildingPaths_def Let_def by (simp add: WInv_createPath)

lemma WInv_generatePaths: "WInv C st \<Longrightarrow> WInv C (generatePaths rnd st)"
proof -
  assume inv: "WInv C st"
  have "WInv C (foldl (buildingPaths rnd) st buildings)"
    by (rule foldl_inv[where P = "WInv C"]) (simp_all add: inv WInv_buildingPaths)
  then show ?thesis
    unfolding generatePaths_def Let_def by (intro WInv_createPath)
qed

lemma WInv_houseCell:
  assumes "WInv C (fst acc)" "0 \<le> y"
  shows "WInv C (fst (houseCell rnd cx cz width depth height rotation y x acc z))"
proof -
  obtain st dr where acc: "acc = (st, dr)" by (cases acc)
  have g: "- 1 / 2 \<le> groundY + y" using assms(2) by (simp add: groundY_def)
  show ?thesis
    using assms(1) g unfolding acc houseCell_def Let_def by simp
qed

lemma WInv_chimneyCell:
  assumes "WInv C st" "0 \<le> y"
  shows "WInv C (chimneyCell rnd cx cz width height rotation y cx' st cz')"
proof -
  have g: "- 1 / 2 \<le> groundY + y" using assms(2) by (simp add: groundY_def)
  have "0 \<le> rv rnd (rcalls st + 1) * 2"
    using Rep_rand01[of "rnd (rcalls st + 1)"] by (simp add: rv_def)
  then have h: "- 1 / 2 \<le> groundY + y + rv rnd (rcalls st + 1) * 2"
    using assms(2) by (simp add: groundY_def)
  show ?thesis
    using assms(1) g h unfolding chimneyCell_def Let_def by simp
qed

lemma WInv_buildHouse:
  assumes "WInv C st" "0 \<le> height"
  shows "WInv C (buildHouse rnd cx cz width depth height rotation st)"
proof -
  let ?walls = "foldl (\<lambda>acc y.
               foldl (\<lambda>acc' x.
                  foldl (houseCell rnd cx cz width depth height rotation y x) acc'
                    (rangeLe (- depth / 2) (depth / 2) 1))
                 acc (rangeLe (- width / 2) (width / 2) 1))
              (st, False) (rangeLt 0 (height + 8))"
  have w: "WInv C (fst ?walls)"
  proof (rule foldl_inv[where P = "\<lambda>acc. WInv C (fst acc)"])
    show "WInv C (fst (st, False))" using assms(1) by simp
  next
    fix acc :: "Gen \<times> bool" and y
    assume y: "y \<in> set (rangeLt 0 (height + 8))" and a: "WInv C (fst acc)"
    have y0: "0 \<le> y" using rangeLt_ge[OF y] .
    show "WInv C (fst (foldl (\<lambda>acc' x.
                  foldl (houseCell rnd cx cz width depth height rotation y x) acc'
                    (rangeLe (- depth / 2) (depth / 2) 1))
                 acc (rangeLe (- width / 2) (width / 2) 1)))"
    proof (rule foldl_inv[where P = "\<lambda>acc. WInv C (fst acc)"])
      show "WInv C (fst acc)" by (rule a)
    next
      fix acc' :: "Gen \<times> bool" and x
      assume a': "WInv C (fst acc')"
      show "WInv C (fst (foldl (houseCell rnd cx cz width depth height rotation y x) acc'
                    (rangeLe (- depth / 2) (depth / 2) 1)))"
        by (rule foldl_inv[where P = "\<lambda>acc. WInv C (fst acc)"])
           (simp_all add: a' WInv_houseCell y0)
    qed
  qed
  show ?thesis
    unfolding buildHouse_def Let_def
  proof (rule foldl_inv[where P = "WInv C"])
    show "WInv C (fst ?walls)" by (rule w)
  next
    fix s y
    assume y: "y \<in> set (rangeLt (height / 2) (height + 10))" and s: "WInv C s"
    have y0: "0 \<le> y" using rangeLt_ge[OF y] assms(2) by simp
    show "WInv C (foldl (\<lambda>s' cx'.
               foldl (chimneyCell rnd cx cz width height rotation y cx') s' [-1..1]) s [-1..1])"
    proof (rule foldl_inv[where P = "WInv C"])
      show "WInv C s" by (rule s)
    next
      fix s' cx'
      assume s': "WInv C s'"
      show "WInv C (foldl (chimneyCell rnd cx cz width height rotation y cx') s' [-1..1])"
        by (rule foldl_inv[where P = "WInv C"]) (simp_all add: s' WInv_chimneyCell y0)
    qed
  qed
qed

lemma WInv_generateHouses: "WInv C st \<Longrightarrow> WInv C (generateHouses rnd st)"
  unfolding generateHouses_def
  by (rule foldl_inv[where P = "WInv C"], assumption)
     (rule WInv_buildHouse, auto simp: buildings_def)

lemma WInv_trunkCell: "WInv C st \<Longrightarrow> 0 \<le> y \<Longrightarrow> WInv C (trunkCell trunkR y x st z)"
  by (simp add: trunkCell_def treeBaseY_def)

lemma WInv_buildTrunk: "WInv C st \<Longrightarrow> WInv C (buildTrunk st)"
  unfolding buildTrunk_def Let_def
  apply (rule foldl_inv[where P = "WInv C"], assumption)
  apply (rule WInv_foldl, assumption)
  apply (rule WInv_foldl, assumption)
  apply (rule WInv_trunkCell, assumption)
  apply (erule rangeLt_ge)
  done

lemma WInv_canopyCell: "WInv C st \<Longrightarrow> 0 \<le> y \<Longrightarrow> WInv C (canopyCell rnd radius y x st z)"
  by (simp add: canopyCell_def Let_def treeBaseY_def)

lemma WInv_buildCanopy: "WInv C st \<Longrightarrow> WInv C (buildCanopy rnd st)"
  unfolding buildCanopy_def Let_def
  apply (rule foldl_inv[where P = "WInv C"], assumption)
  apply (rule WInv_foldl, assumption)
  apply (rule WInv_foldl, assumption)
  apply (rule WInv_canopyCell, assumption)
  apply (drule rangeLt_ge)
  apply simp
  done

lemma WInv_starCell: "WInv C st \<Longrightarrow> -2 \<le> y \<Longrightarrow> WInv C (starCell x y st z)"
  by (simp add: starCell_def starY_def treeBaseY_def worldTreeHeight_def)

lemma WInv_buildStar: "WInv C st \<Longrightarrow> WInv C (buildStar st)"
  unfolding buildStar_def
  apply (rule WInv_foldl, assumption)
  apply (rule foldl_inv[where P = "WInv C"], assumption)
  apply (rule WInv_foldl, assumption)
  apply (rule WInv_starCell, assumption)
  apply auto
  done

lemma WInv_starRay:
  assumes "WInv C st" "-1 \<le> fst (snd dir)"
  shows "WInv C (starRay st dir)"
proof -
  obtain d0 d1 d2 where dir: "dir = (d0, d1, d2)" by (cases dir)
  have d1: "-1 \<le> d1" using assms(2) dir by simp
  let ?len = "if \<bar>d0\<bar> + \<bar>d1\<bar> + \<bar>d2\<bar> > 1 then 5 else (9::int)"
  have "WInv C (foldl (\<lambda>s i. add (real_of_int (d0 * i)) (starY + real_of_int (d1 * i))
                        (real_of_int (d2 * i)) STAR_GLOW True s) st [2..?len - 1])"
  proof (rule foldl_inv[where P = "WInv C"])
    show "WInv C st" by (rule assms(1))
  next
    fix s i
    assume i: "i \<in> set [2..?len - 1]" and s: "WInv C s"
    have ib: "0 \<le> i" "i \<le> 8" using i by (auto split: if_splits)
    have "(-1) * i \<le> d1 * i" using d1 ib(1) by (rule mult_right_mono)
    then have "- i \<le> d1 * i" by simp
    then have "-8 \<le> d1 * i" using ib(2) by linarith
    then have "-8 \<le> real_of_int (d1 * i)" by linarith
    then have "- 1 / 2 \<le> starY + real_of_int (d1 * i)"
      by (simp add: starY_def treeBaseY_def worldTreeHeight_def)
    with s show "WInv C (add (real_of_int (d0 * i)) (starY + real_of_int (d1 * i))
                        (real_of_int (d2 * i)) STAR_GLOW True s)"
      by (rule WInv_add_high)
  qed
  then show ?thesis unfolding dir starRay_def Let_def by simp
qed

lemma WInv_starRays: "WInv C st \<Longrightarrow> WInv C (foldl starRay st directions)"
  by (rule foldl_inv[where P = "WInv C"], assumption)
     (rule WInv_starRay, auto simp: directions_def)

lemma js_round_of_int [simp]: "js_round (real_of_int n) = n"
  by (simp add: js_round_def)

lemma WInv_ice:
  assumes "WInv C st" "iceCol x z" "(x, -2, z) \<notin> C"
  shows "WInv (insert (x, -2, z) C)
           (st\<lparr>interactiveIce := interactiveIce st @ [\<lparr>vx = x, vy = -2, vz = z, vcolor = c\<rparr>]\<rparr>)"
proof -
  have "(x, -2, z) \<notin> coord ` set (interactiveIce st)"
    using assms(1,3) unfolding WInv_def by auto
  then show ?thesis
    using assms(1,2) unfolding WInv_def by (auto simp: coord_def)
qed

lemma WInv_water:
  assumes "WInv C st" "iceCol x z" "(x, -6, z) \<notin> C"
  shows "WInv (insert (x, -6, z) C)
           (st\<lparr>waterVoxels := waterVoxels st @ [\<lparr>vx = x, vy = -6, vz = z, vcolor = c\<rparr>]\<rparr>)"
proof -
  have "(x, -6, z) \<notin> coord ` set (waterVoxels st)"
    using assms(1,3) unfolding WInv_def by auto
  then show ?thesis
    using assms(1,2) unfolding WInv_def by (auto simp: coord_def)
qed

lemma WInv_add_int:
  assumes "WInv C st" "iceCol x z \<longrightarrow> 0 \<le> y \<or> y < -6"
  shows "WInv C (add (real_of_int x) (real_of_int y) (real_of_int z) color g st)"
  by (rule WInv_add) (use assms in simp_all)

lemma WInv_terrainLayer:
  assumes inv: "WInv C st" and new: "(x, y, z) \<notin> C"
  shows "WInv (insert (x, y, z) C)
           (terrainLayer rnd x z (iceCol x z) surfaceY surfaceColor isPath bottomY st y)"
proof (cases "iceCol x z")
  case True
  have m: "\<And>s. WInv C s \<Longrightarrow> WInv (insert (x, y, z) C) s"
    by (erule WInv_mono) auto
  consider "y = -2" | "y = -6" | "y < -6" | "y \<noteq> -2" "y \<noteq> -6" "\<not> y < -6" by linarith
  then show ?thesis
  proof cases
    case 1
    then show ?thesis
      using WInv_ice[OF inv True, of ICE] new True
      by (simp add: terrainLayer_def Let_def pondIceY_def)
  next
    case 2
    then show ?thesis
      using WInv_water[OF inv True, of WATER] new True
      by (simp add: terrainLayer_def Let_def pondIceY_def pondWaterY_def)
  next
    case 3
    then have a: "\<And>color. WInv (insert (x, y, z) C)
              (add (real_of_int x) (real_of_int y) (real_of_int z) color False st)"
      by (intro m WInv_add_int inv) simp
    have "terrainLayer rnd x z (iceCol x z) surfaceY surfaceColor isPath bottomY st y =
            (if y = pondWaterY - 1 then add (real_of_int x) (real_of_int y) (real_of_int z) DIRT False st
             else if y - bottomY < 2
               then add (real_of_int x) (real_of_int y) (real_of_int z) STONE False st
             else st)"
      using 3 True by (simp add: terrainLayer_def Let_def pondIceY_def pondWaterY_def)
    then show ?thesis
      using a m[OF inv] by (simp only: split: if_split) blast
  next
    case 4
    then show ?thesis
      using True m[OF inv]
      by (auto simp: terrainLayer_def Let_def pondIceY_def pondWaterY_def)
  qed
next
  case False
  have m: "\<And>s. WInv C s \<Longrightarrow> WInv (insert (x, y, z) C) s"
    by (erule WInv_mono) auto
  have a: "\<And>color s. WInv C s \<Longrightarrow> WInv (insert (x, y, z) C)
              (add (real_of_int x) (real_of_int y) (real_of_int z) color False s)"
    by (intro m WInv_add_int) (simp_all add: False)
  have "terrainLayer rnd x z (iceCol x z) surfaceY surfaceColor isPath bottomY st y =
          (if surfaceY - y \<le> 7 \<or> y - bottomY \<le> 2 then
             (if y = surfaceY
                then add (real_of_int x) (real_of_int y) (real_of_int z) surfaceColor False st
              else if surfaceY - y \<le> 2 \<and> \<not> isPath
                then add (real_of_int x) (real_of_int y) (real_of_int z) DIRT False st
              else add (real_of_int x) (real_of_int y) (real_of_int z)
                     (if rv rnd (rcalls st) > 0.85 then DIRT else STONE) False (tick st))
           else st)"
    using False by (simp add: terrainLayer_def Let_def)
  moreover have "WInv C (tick st)" using inv by simp
  ultimately show ?thesis
    using a inv m[OF inv] by (simp only: split: if_split) blast
qed

lemma WInv_layers:
  assumes "WInv C st" "distinct ys" "\<forall>y\<in>set ys. (x, y, z) \<notin> C"
  shows "WInv (C \<union> (\<lambda>y. (x, y, z)) ` set ys)
           (foldl (terrainLayer rnd x z (iceCol x z) surfaceY surfaceColor isPath bottomY) st ys)"
  using assms
proof (induction ys arbitrary: st C)
  case Nil
  then show ?case by simp
next
  case (Cons y ys)
  have s: "WInv (insert (x, y, z) C)
             (terrainLayer rnd x z (iceCol x z) surfaceY surfaceColor isPath bottomY st y)"
    using Cons.prems by (intro WInv_terrainLayer) simp_all
  have n: "\<forall>y'\<in>set ys. (x, y', z) \<notin> insert (x, y, z) C"
    using Cons.prems by auto
  have d: "distinct ys" using Cons.prems by simp
  have e: "insert (x, y, z) C \<union> (\<lambda>y. (x, y, z)) ` set ys =
           C \<union> (\<lambda>y. (x, y, z)) ` set (y # ys)" by auto
  from Cons.IH[OF s d n] show ?case by (simp only: e foldl_Cons)
qed

lemma isIceSurface_iceCol:
  "(sqrt ((real_of_int x - pondCenterX)\<^sup>2 + (real_of_int z - pondCenterZ)\<^sup>2) < pondRadius \<and>
    sqrt ((real_of_int x - pondCenterX)\<^sup>2 + (real_of_int z - pondCenterZ)\<^sup>2) < pondRadius - 2)
   = iceCol x z"
  by (auto simp: iceCol_def)

lemma terrainColumn_cases:
  "terrainColumn rnd x st z = st \<or>
   (\<exists>sY sC iP bY st1. (st1 = st \<or> st1 = tick st) \<and>
      terrainColumn rnd x st z =
        foldl (terrainLayer rnd x z (iceCol x z) sY sC iP bY) st1 [bY..sY])"
proof (cases "sqrt (real_of_int (x * x + z * z)) > real_of_int WORLD_RADIUS")
  case True
  then show ?thesis by (simp add: terrainColumn_def Let_def)
next
  case False
  have "\<exists>sY sC iP bY st1. (st1 = st \<or> st1 = tick st) \<and>
      terrainColumn rnd x st z =
        foldl (terrainLayer rnd x z (iceCol x z) sY sC iP bY) st1 [bY..sY]"
    unfolding terrainColumn_def Let_def isIceSurface_iceCol
    apply (simp only: False if_False)
    apply (intro exI conjI)
     prefer 2
     apply (rule refl)
    apply (simp only: split: if_split)
    apply blast
    done
  then show ?thesis by blast
qed

lemma WInv_terrainColumn:
  assumes "WInv (colset P) st" "(x, z) \<notin> P"
  shows "WInv (colset (insert (x, z) P)) (terrainColumn rnd x st z)"
proof -
  have sub: "colset P \<subseteq> colset (insert (x, z) P)" by (auto simp: colset_def)
  from terrainColumn_cases[of rnd x st z] show ?thesis
  proof
    assume "terrainColumn rnd x st z = st"
    then show ?thesis using WInv_mono[OF assms(1) sub] by simp
  next
    assume "\<exists>sY sC iP bY st1. (st1 = st \<or> st1 = tick st) \<and>
      terrainColumn rnd x st z =
        foldl (terrainLayer rnd x z (iceCol x z) sY sC iP bY) st1 [bY..sY]"
    then obtain sY sC iP bY st1 where st1: "st1 = st \<or> st1 = tick st"
      and e: "terrainColumn rnd x st z =
        foldl (terrainLayer rnd x z (iceCol x z) sY sC iP bY) st1 [bY..sY]" by blast
    have i1: "WInv (colset P) st1" using st1 assms(1) by auto
    have n: "\<forall>y\<in>set [bY..sY]. (x, y, z) \<notin> colset P" using assms(2) by (simp add: colset_def)
    have "WInv (colset P \<union> (\<lambda>y. (x, y, z)) ` set [bY..sY])
            (foldl (terrainLayer rnd x z (iceCol x z) sY sC iP bY) st1 [bY..sY])"
      by (rule WInv_layers[OF i1 _ n]) simp
    moreover have "colset P \<union> (\<lambda>y. (x, y, z)) ` set [bY..sY] \<subseteq> colset (insert (x, z) P)"
      by (auto simp: colset_def)
    ultimately show ?thesis unfolding e by (rule WInv_mono)
  qed
qed

lemma WInv_columns_z:
  assumes "WInv (colset P) st" "distinct zs" "\<forall>z\<in>set zs. (x, z) \<notin> P"
  shows "WInv (colset (P \<union> {x} \<times> set zs)) (foldl (terrainColumn rnd x) st zs)"
  using assms
proof (induction zs arbitrary: st P)
  case Nil
  then show ?case by simp
next
  case (Cons z zs)
  have s: "WInv (colset (insert (x, z) P)) (terrainColumn rnd x st z)"
    using Cons.prems by (intro WInv_terrainColumn) simp_all
  have n: "\<forall>z'\<in>set zs. (x, z') \<notin> insert (x, z) P" using Cons.prems by auto
  have d: "distinct zs" using Cons.prems by simp
  have e: "insert (x, z) P \<union> {x} \<times> set zs = P \<union> {x} \<times> set (z # zs)" by auto
  from Cons.IH[OF s d n] show ?case by (simp only: e foldl_Cons)
qed

lemma WInv_columns_x:
  assumes "WInv (colset P) st" "distinct xs" "distinct zs" "\<forall>x\<in>set xs. \<forall>z\<in>set zs. (x, z) \<notin> P"
  shows "WInv (colset (P \<union> set xs \<times> set zs))
           (foldl (\<lambda>s x. foldl (terrainColumn rnd x) s zs) st xs)"
  using assms
proof (induction xs arbitrary: st P)
  case Nil
  then show ?case by simp
next
  case (Cons x xs)
  have s: "WInv (colset (P \<union> {x} \<times> set zs)) (foldl (terrainColumn rnd x) st zs)"
    using Cons.prems by (intro WInv_columns_z) simp_all
  have n: "\<forall>x'\<in>set xs. \<forall>z\<in>set zs. (x', z) \<notin> P \<union> {x} \<times> set zs" using Cons.prems by auto
  have d: "distinct xs" using Cons.prems by simp
  have e: "P \<union> {x} \<times> set zs \<union> set xs \<times> set zs = P \<union> set (x # xs) \<times> set zs" by auto
  from Cons.IH[OF s d Cons.prems(3) n] show ?case by (simp only: e foldl_Cons)
qed

lemma colset_empty: "colset {} = {}"
  by (simp add: colset_def)

lemma WInv_generateTerrain:
  assumes "WInv {} st"
  shows "WInv UNIV (generateTerrain rnd st)"
proof -
  let ?r = "[- WORLD_RADIUS..WORLD_RADIUS]"
  have "WInv (colset ({} \<union> set ?r \<times> set ?r)) (generateTerrain rnd st)"
    unfolding generateTerrain_def
    by (rule WInv_columns_x) (simp_all add: colset_empty assms)
  then show ?thesis by (rule WInv_mono) simp
qed

lemma WInv_distinct:
  assumes "WInv C st"
  shows "distinct (map coord (regularVoxels st @ glowingVoxels st @ interactiveIce st @ waterVoxels st))"
proof -
  have a: "distinct (map coord (regularVoxels st @ glowingVoxels st))"
    and i: "distinct (map coord (interactiveIce st))"
    and w: "distinct (map coord (waterVoxels st))"
    using assms unfolding WInv_def by blast+
  have iw: "coord ` set (interactiveIce st) \<inter> coord ` set (waterVoxels st) = {}"
    using assms unfolding WInv_def coord_def by fastforce
  have ai: "coord ` set (regularVoxels st @ glowingVoxels st) \<inter>
            coord ` set (interactiveIce st @ waterVoxels st) = {}"
  proof (rule ccontr)
    assume "\<not> ?thesis"
    then obtain c where "c \<in> coord ` set (regularVoxels st @ glowingVoxels st)"
      "c \<in> coord ` set (interactiveIce st @ waterVoxels st)" by blast
    then obtain v u where v: "v \<in> set (regularVoxels st @ glowingVoxels st)"
      and u: "u \<in> set (interactiveIce st @ waterVoxels st)" and c: "coord v = coord u"
      by (metis imageE)
    from u assms have "(vy u = -2 \<or> vy u = -6) \<and> iceCol (vx u) (vz u)"
      unfolding WInv_def by auto
    with c have "(vy v = -2 \<or> vy v = -6) \<and> iceCol (vx v) (vz v)" by (simp add: coord_def)
    moreover from v assms have "iceCol (vx v) (vz v) \<longrightarrow> 0 \<le> vy v \<or> vy v < -6"
      unfolding WInv_def by blast
    ultimately show False by auto
  qed
  have "distinct (map coord ((regularVoxels st @ glowingVoxels st) @
                             (interactiveIce st @ waterVoxels st)))"
    unfolding map_append distinct_append using a i w iw ai by (simp add: image_Un Int_Un_distrib)
  then show ?thesis by simp
qed

lemma WInv_generateWorldState: "WInv UNIV (generateWorldState rnd)"
proof -
  have "WInv {} (generateHouses rnd (generatePaths rnd emptyGen))"
    by (intro WInv_generateHouses WInv_generatePaths WInv_emptyGen)
  then have "WInv UNIV (generateTerrain rnd (generateHouses rnd (generatePaths rnd emptyGen)))"
    by (rule WInv_generateTerrain)
  then show ?thesis
    unfolding generateWorldState_def
    by (intro WInv_starRays WInv_buildStar WInv_buildCanopy WInv_buildTrunk)
qed

lemma add_occupied: "(js_round x, js_round y, js_round z) \<in> occupied st \<Longrightarrow> add x y z c g st = st"
  by (simp add: add_def Let_def)

lemma add_free:
  assumes "(js_round x, js_round y, js_round z) \<notin> occupied st"
  shows "regularVoxels (add x y z c g st) @ glowingVoxels (add x y z c g st) =
           (if g then regularVoxels st @ glowingVoxels st @
                      [\<lparr>vx = js_round x, vy = js_round y, vz = js_round z, vcolor = c\<rparr>]
            else regularVoxels st @
                   [\<lparr>vx = js_round x, vy = js_round y, vz = js_round z, vcolor = c\<rparr>] @
                   glowingVoxels st)"
    and "occupied (add x y z c g st) = insert (js_round x, js_round y, js_round z) (occupied st)"
  using assms by (simp_all add: add_def Let_def)

text \<open>
  Claim C8, amended. For every random source, no two voxels of the regular, glowing,
  interactive-ice and water arrays returned by \<open>generateWorld\<close> share a lattice cell.
  The regular and glowing voxels go through \<open>add\<close>, where the first write to a cell
  wins (the cell is recorded and the voxel appended) and a later write to the same cell
  leaves the state unchanged. The ice and water voxels do not go through \<open>add\<close>: they
  are unique because each pond column is visited once and emits them at the levels
  \<open>-2\<close> and \<open>-6\<close>, which no \<open>add\<close> emission reaches in a pond column.
\<close>

theorem world_voxels_unique:
  "distinct (map coord (allVoxels (generateWorld rnd))) \<and>
   ((js_round x, js_round y, js_round z) \<in> occupied st \<longrightarrow> add x y z c g st = st) \<and>
   ((js_round x, js_round y, js_round z) \<notin> occupied st \<longrightarrow>
      occupied (add x y z c g st) = insert (js_round x, js_round y, js_round z) (occupied st) \<and>
      (if g then glowingVoxels (add x y z c g st) else regularVoxels (add x y z c g st)) =
        (if g then glowingVoxels st else regularVoxels st) @
        [\<lparr>vx = js_round x, vy = js_round y, vz = js_round z, vcolor = c\<rparr>])"
proof (intro conjI impI)
  show "distinct (map coord (allVoxels (generateWorld rnd)))"
    using WInv_distinct[OF WInv_generateWorldState, of rnd]
    by (simp add: allVoxels_def generateWorld_def Let_def)
next
  assume "(js_round x, js_round y, js_round z) \<in> occupied st"
  then show "add x y z c g st = st" by (rule add_occupied)
next
  assume a: "(js_round x, js_round y, js_round z) \<notin> occupied st"
  then show "occupied (add x y z c g st) = insert (js_round x, js_round y, js_round z) (occupied st)"
    by (simp add: add_def Let_def)
  from a show "(if g then glowingVoxels (add x y z c g st) else regularVoxels (add x y z c g st)) =
        (if g then glowingVoxels st else regularVoxels st) @
        [\<lparr>vx = js_round x, vy = js_round y, vz = js_round z, vcolor = c\<rparr>]"
    by (simp add: add_def Let_def)
qed

theorem world_voxels_unique_witness:
  "regularVoxels (add 0.4 0 0 STONE False emptyGen) = [\<lparr>vx = 0, vy = 0, vz = 0, vcolor = STONE\<rparr>] \<and>
   add 0 0.2 0 DIRT False (add 0.4 0 0 STONE False emptyGen) = add 0.4 0 0 STONE False emptyGen \<and>
   distinct (map coord (allVoxels (generateWorld (constRandom 0))))"
proof -
  have o: "(js_round 0.4, js_round 0, js_round 0) \<notin> occupied emptyGen"
    by (simp add: emptyGen_def)
  have p: "(js_round 0, js_round 0.2, js_round 0) \<in> occupied (add 0.4 0 0 STONE False emptyGen)"
    by (simp add: add_def Let_def emptyGen_def js_round_def)
  show ?thesis
    using world_voxels_unique[where rnd = "constRandom 0" and x = "0.4" and y = 0 and z = 0
                                and st = emptyGen and c = STONE and g = False] o
      world_voxels_unique[where rnd = "constRandom 0" and x = 0 and y = "0.2" and z = 0
                            and st = "add 0.4 0 0 STONE False emptyGen" and c = DIRT and g = False] p
    by (simp add: emptyGen_def js_round_def)
qed

text \<open>
  Claim C8 as stated fails in its reason: the ice emission of the terrain loop is not
  occupancy-checked. On a state whose cell \<open>(-35, -2, 35)\<close> is already occupied by a
  regular voxel, the loop body for that cell of an ice column still pushes an ice voxel,
  so the write is not dropped.
\<close>

theorem ice_bypasses_occupancy_counterexample:
  "(-35, -2, 35) \<in> occupied (add (-35) (-2) 35 STONE False emptyGen) \<and>
   regularVoxels (terrainLayer (constRandom 0) (-35) 35 True (-2) SNOW False (-40)
                    (add (-35) (-2) 35 STONE False emptyGen) (-2)) =
     [\<lparr>vx = -35, vy = -2, vz = 35, vcolor = STONE\<rparr>] \<and>
   interactiveIce (terrainLayer (constRandom 0) (-35) 35 True (-2) SNOW False (-40)
                     (add (-35) (-2) 35 STONE False emptyGen) (-2)) =
     [\<lparr>vx = -35, vy = -2, vz = 35, vcolor = ICE\<rparr>]"
  by (simp add: terrainLayer_def add_def Let_def emptyGen_def js_round_def pondIceY_def)


end
